theory Spec2Isabelle
  imports Complex_Main
begin

section \<open>The Cartesia text-to-speech service: data model\<close>

text \<open>
  A shallow embedding of \<^verbatim>\<open>CartesiaTTSService\<close>
  (\<^verbatim>\<open>src/pipecat/services/cartesia.py\<close>). The attributes of the object are the fields of
  a record; every coroutine is a function from the state to the new state together with
  the list of effects it performed, in order (frames pushed downstream, metrics hooks,
  socket operations, logged exceptions). What the environment decides is an argument:
  the reading of the wall clock, the outcome of a connect, a send or a close, the
  identifier drawn from \<^verbatim>\<open>uuid4\<close>, the base64 decoder.

  Wall-clock times and JSON numbers are rationals: the code only subtracts two clock
  readings and compares the difference with an offset.
\<close>

subsection \<open>Decoded server messages\<close>

text \<open>
  The value \<^verbatim>\<open>json.loads\<close> returns. The pairs of \<open>JObj\<close> are the items of the Python
  dict in order.
\<close>

datatype json =
    JNull
  | JBool bool
  | JNum rat
  | JStr string
  | JArr "json list"
  | JObj "(string \<times> json) list"

datatype error =
    JSONDecodeError
  | KeyError string
  | TypeError
  | AttributeError
  | Base64Error
  | ConnectError
  | SendError
  | CloseError

text \<open>What arrives on the socket: a text that \<^verbatim>\<open>json.loads\<close> rejects, or one it decodes.\<close>

datatype ws_message = Invalid | Json json

fun json_loads :: "ws_message \<Rightarrow> error + json" where
  "json_loads Invalid = Inl JSONDecodeError"
| "json_loads (Json j) = Inr j"

text \<open>Python truth value of a decoded message (\<^verbatim>\<open>not msg\<close> is its negation).\<close>

fun truthy :: "json \<Rightarrow> bool" where
  "truthy JNull = False"
| "truthy (JBool b) = b"
| "truthy (JNum n) = (n \<noteq> 0)"
| "truthy (JStr s) = (s \<noteq> [])"
| "truthy (JArr xs) = (xs \<noteq> [])"
| "truthy (JObj kvs) = (kvs \<noteq> [])"

text \<open>
  \<^verbatim>\<open>msg[key]\<close> with a string key: a dict looks the key up and raises \<^verbatim>\<open>KeyError\<close> when
  it is absent, every other value raises \<^verbatim>\<open>TypeError\<close>.
\<close>

fun subscript :: "json \<Rightarrow> string \<Rightarrow> error + json" where
  "subscript (JObj kvs) k = (case map_of kvs k of None \<Rightarrow> Inl (KeyError k) | Some v \<Rightarrow> Inr v)"
| "subscript _ k = Inl TypeError"

text \<open>
  \<^verbatim>\<open>msg["context_id"] != self._context_id\<close>, where the attribute is \<^verbatim>\<open>None\<close> or a
  string: JSON \<^verbatim>\<open>null\<close> equals \<^verbatim>\<open>None\<close>, a JSON string equals the same string, nothing
  else is equal.
\<close>

fun context_differs :: "json \<Rightarrow> string option \<Rightarrow> bool" where
  "context_differs v None = (v \<noteq> JNull)"
| "context_differs v (Some c) = (v \<noteq> JStr c)"

text \<open>The iteration \<^verbatim>\<open>zip\<close> performs on each argument.\<close>

fun iterate :: "json \<Rightarrow> error + json list" where
  "iterate (JArr xs) = Inr xs"
| "iterate (JStr s) = Inr (map (\<lambda>c. JStr [c]) s)"
| "iterate (JObj kvs) = Inr (map (\<lambda>kv. JStr (fst kv)) kvs)"
| "iterate _ = Inl TypeError"

text \<open>
  \<^verbatim>\<open>list(zip(msg["word_timestamps"]["words"], msg["word_timestamps"]["end"]))\<close>,
  evaluated left to right.
\<close>

definition word_timestamps :: "json \<Rightarrow> error + (json \<times> json) list" where
  "word_timestamps msg =
     (case subscript msg ''word_timestamps'' of
        Inl e \<Rightarrow> Inl e
      | Inr wt \<Rightarrow>
          (case subscript wt ''words'' of
             Inl e \<Rightarrow> Inl e
           | Inr ws \<Rightarrow>
               (case subscript msg ''word_timestamps'' of
                  Inl e \<Rightarrow> Inl e
                | Inr wt' \<Rightarrow>
                    (case subscript wt' ''end'' of
                       Inl e \<Rightarrow> Inl e
                     | Inr es \<Rightarrow>
                         (case iterate ws of
                            Inl e \<Rightarrow> Inl e
                          | Inr wl \<Rightarrow>
                              (case iterate es of
                                 Inl e \<Rightarrow> Inl e
                               | Inr el \<Rightarrow> Inr (zip wl el)))))))"

text \<open>
  \<^verbatim>\<open>base64.b64decode(msg["data"])\<close>: the decoder itself is the library's, taken as the
  argument \<open>b64\<close> (\<open>None\<close> where it raises); a payload that is not a string is a
  \<^verbatim>\<open>TypeError\<close>.
\<close>

fun b64decode :: "(string \<Rightarrow> string option) \<Rightarrow> json \<Rightarrow> error + string" where
  "b64decode b64 (JStr d) = (case b64 d of None \<Rightarrow> Inl Base64Error | Some a \<Rightarrow> Inr a)"
| "b64decode b64 _ = Inl TypeError"

subsection \<open>Frames, requests, effects\<close>

datatype frame =
    AudioRawFrame string nat nat
  | TextFrame json
  | LLMFullResponseEndFrame

record output_format =
  container :: string
  encoding :: string
  sample_rate :: nat

record config =
  api_key :: string
  cartesia_version :: string
  url :: string
  voice_id :: string
  model_id :: string
  output_format :: output_format
  language :: string

record request =
  req_transcript :: string
  req_continue :: bool
  req_context_id :: string
  req_model_id :: string
  req_voice_mode :: string
  req_voice_id :: string
  req_output_format :: output_format
  req_language :: string
  req_add_timestamps :: bool

type_synonym ws = nat

datatype task = ReceiveTask | ContextAppendingTask

datatype effect =
    PushFrame frame
  | StartTtfbMetrics
  | StopTtfbMetrics
  | StopAllMetrics
  | SuperHandleInterruption
  | LogException error
  | WsConnect string
  | CreateTask task
  | CancelTask task
  | WsClose ws
  | WsSend ws request

subsection \<open>The state of the service\<close>

record state =
  websocket :: "ws option"
  context_id :: "string option"
  context_id_start_timestamp :: "rat option"
  timestamped_words_buffer :: "(json \<times> json) list"
  receive_task :: "task option"
  context_appending_task :: "task option"
  waiting_for_ttfb :: bool

text \<open>The state \<^verbatim>\<open>__init__\<close> leaves.\<close>

definition init :: state where
  "init = \<lparr> websocket = None, context_id = None, context_id_start_timestamp = None,
            timestamped_words_buffer = [], receive_task = None,
            context_appending_task = None, waiting_for_ttfb = False \<rparr>"

text \<open>
  \<^verbatim>\<open>not self._context_id_start_timestamp\<close>: true of \<^verbatim>\<open>None\<close> and of the number
  zero.
\<close>

fun no_timestamp :: "rat option \<Rightarrow> bool" where
  "no_timestamp None = True"
| "no_timestamp (Some t) = (t = 0)"

section \<open>Connection manager\<close>

text \<open>
  \<^verbatim>\<open>connect\<close>: \<open>res\<close> is what \<^verbatim>\<open>websockets.connect\<close> does, \<open>Some w\<close> the new handle
  or \<open>None\<close> when it raises.
\<close>

definition connect_url :: "config \<Rightarrow> string" where
  "connect_url cfg =
     url cfg @ ''?api_key='' @ api_key cfg @ ''&cartesia_version='' @ cartesia_version cfg"

fun connect :: "config \<Rightarrow> ws option \<Rightarrow> state \<Rightarrow> state \<times> effect list" where
  "connect cfg (Some w) s =
     (s\<lparr> websocket := Some w, receive_task := Some ReceiveTask,
         context_appending_task := Some ContextAppendingTask \<rparr>,
      [WsConnect (connect_url cfg), CreateTask ReceiveTask, CreateTask ContextAppendingTask])"
| "connect cfg None s =
     (s\<lparr> websocket := None \<rparr>, [WsConnect (connect_url cfg), LogException ConnectError])"

text \<open>
  \<^verbatim>\<open>disconnect\<close>: \<open>close_ok\<close> says whether \<^verbatim>\<open>ws.close()\<close> returns; when it raises, the
  handler of the surrounding \<^verbatim>\<open>try\<close> logs and the statements after the close are not
  run.
\<close>

definition cancel_tasks :: "state \<Rightarrow> state \<times> effect list" where
  "cancel_tasks s =
     (let (s1, e1) = (if context_appending_task s \<noteq> None
                      then (s\<lparr> context_appending_task := None \<rparr>, [CancelTask ContextAppendingTask])
                      else (s, []));
          (s2, e2) = (if receive_task s1 \<noteq> None
                      then (s1\<lparr> receive_task := None \<rparr>, [CancelTask ReceiveTask])
                      else (s1, []))
      in (s2, e1 @ e2))"

definition reset_context :: "state \<Rightarrow> state" where
  "reset_context s =
     s\<lparr> context_id := None, context_id_start_timestamp := None,
        timestamped_words_buffer := [], waiting_for_ttfb := False \<rparr>"

definition disconnect :: "bool \<Rightarrow> state \<Rightarrow> state \<times> effect list" where
  "disconnect close_ok s =
     (let (s2, e2) = cancel_tasks s in
      case websocket s2 of
        None \<Rightarrow> (reset_context s2, e2 @ [StopAllMetrics])
      | Some w \<Rightarrow>
          (let s3 = s2\<lparr> websocket := None \<rparr> in
           if close_ok
           then (reset_context s3, e2 @ [WsClose w, StopAllMetrics])
           else (s3, e2 @ [WsClose w, LogException CloseError])))"

section \<open>Interruption handler\<close>

text \<open>
  \<^verbatim>\<open>handle_interruption\<close>. The call to the base class is recorded as an effect; the
  base class is not part of this file.
\<close>

definition handle_interruption :: "state \<Rightarrow> state \<times> effect list" where
  "handle_interruption s =
     (s\<lparr> context_id := None, context_id_start_timestamp := None,
         timestamped_words_buffer := [] \<rparr>,
      [SuperHandleInterruption, StopAllMetrics, PushFrame LLMFullResponseEndFrame])"

section \<open>Inbound event demultiplexer\<close>

definition sentinel :: "json \<times> json" where
  "sentinel = (JStr ''LLMFullResponseEndFrame'', JNum 0)"

text \<open>
  The body of the \<^verbatim>\<open>async for\<close> of \<^verbatim>\<open>_receive_task_handler\<close> for one message. \<open>now\<close>
  is what \<^verbatim>\<open>time.time()\<close> returns if it is called. The third component is the
  exception that leaves the body, if any; the state and the effects are those reached
  before it was raised.
\<close>

definition on_chunk ::
  "(string \<Rightarrow> string option) \<Rightarrow> config \<Rightarrow> rat \<Rightarrow> json \<Rightarrow> state
     \<Rightarrow> state \<times> effect list \<times> error option" where
  "on_chunk b64 cfg now msg s =
     (let s1 = (if no_timestamp (context_id_start_timestamp s)
                then s\<lparr> context_id_start_timestamp := Some now \<rparr> else s);
          (s2, e2) = (if waiting_for_ttfb s1
                      then (s1\<lparr> waiting_for_ttfb := False \<rparr>, [StopTtfbMetrics])
                      else (s1, []))
      in case subscript msg ''data'' of
           Inl e \<Rightarrow> (s2, e2, Some e)
         | Inr d \<Rightarrow>
             (case b64decode b64 d of
                Inl e \<Rightarrow> (s2, e2, Some e)
              | Inr audio \<Rightarrow>
                  (s2, e2 @ [PushFrame (AudioRawFrame audio (sample_rate (output_format cfg)) 1)],
                   None)))"

definition receive_message ::
  "(string \<Rightarrow> string option) \<Rightarrow> config \<Rightarrow> rat \<Rightarrow> ws_message \<Rightarrow> state
     \<Rightarrow> state \<times> effect list \<times> error option" where
  "receive_message b64 cfg now m s =
     (case json_loads m of
        Inl e \<Rightarrow> (s, [], Some e)
      | Inr msg \<Rightarrow>
          if \<not> truthy msg then (s, [], None)
          else
            (case subscript msg ''context_id'' of
               Inl e \<Rightarrow> (s, [], Some e)
             | Inr v \<Rightarrow>
                 if context_differs v (context_id s) then (s, [], None)
                 else
                   (case subscript msg ''type'' of
                      Inl e \<Rightarrow> (s, [], Some e)
                    | Inr ty \<Rightarrow>
                        (let s1 = (if ty = JStr ''done''
                                   then s\<lparr> context_id := None,
                                           timestamped_words_buffer :=
                                             timestamped_words_buffer s @ [sentinel] \<rparr>
                                   else s)
                         in if ty = JStr ''timestamps''
                            then (case word_timestamps msg of
                                    Inl e \<Rightarrow> (s1, [], Some e)
                                  | Inr ps \<Rightarrow>
                                      (s1\<lparr> timestamped_words_buffer :=
                                             timestamped_words_buffer s1 @ ps \<rparr>, [], None))
                            else if ty = JStr ''chunk''
                            then on_chunk b64 cfg now msg s1
                            else (s1, [], None)))))"

text \<open>
  \<^verbatim>\<open>_receive_task_handler\<close> on the messages the socket delivers, each with the clock
  reading at its arrival. The \<^verbatim>\<open>try\<close> encloses the whole loop: an exception is logged
  and the coroutine returns.
\<close>

fun receive_task_handler ::
  "(string \<Rightarrow> string option) \<Rightarrow> config \<Rightarrow> (rat \<times> ws_message) list \<Rightarrow> state
     \<Rightarrow> state \<times> effect list" where
  "receive_task_handler b64 cfg [] s = (s, [])"
| "receive_task_handler b64 cfg ((now, m) # ms) s =
     (case receive_message b64 cfg now m s of
        (s', es, Some e) \<Rightarrow> (s', es @ [LogException e])
      | (s', es, None) \<Rightarrow>
          (let (s'', es') = receive_task_handler b64 cfg ms s' in (s'', es @ es')))"

section \<open>Timeline replay scheduler\<close>

text \<open>\<^verbatim>\<open>entry[1] <= elapsed_seconds\<close>: numbers and booleans compare, anything else raises.\<close>

fun offset_le :: "json \<Rightarrow> rat \<Rightarrow> error + bool" where
  "offset_le (JNum t) e = Inr (t \<le> e)"
| "offset_le (JBool b) e = Inr ((if b then 1 else 0) \<le> e)"
| "offset_le _ e = Inl TypeError"

text \<open>\<^verbatim>\<open>word == "LLMFullResponseEndFrame" and timestamp == 0\<close>.\<close>

fun is_sentinel :: "json \<times> json \<Rightarrow> bool" where
  "is_sentinel (w, t) =
     (w = JStr ''LLMFullResponseEndFrame'' \<and> (t = JNum 0 \<or> t = JBool False))"

definition entry_frame :: "json \<times> json \<Rightarrow> frame" where
  "entry_frame en = (if is_sentinel en then LLMFullResponseEndFrame else TextFrame (fst en))"

text \<open>
  The inner \<^verbatim>\<open>while\<close>: pops from the front while the front entry is due. Returns the
  buffer left, the frames pushed and the exception raised, if any.
\<close>

fun pop_due ::
  "rat \<Rightarrow> (json \<times> json) list \<Rightarrow> (json \<times> json) list \<times> effect list \<times> error option" where
  "pop_due elapsed [] = ([], [], None)"
| "pop_due elapsed (en # rest) =
     (case offset_le (snd en) elapsed of
        Inl e \<Rightarrow> (en # rest, [], Some e)
      | Inr False \<Rightarrow> (en # rest, [], None)
      | Inr True \<Rightarrow>
          (let (buf, es, r) = pop_due elapsed rest
           in (buf, PushFrame (entry_frame en) # es, r)))"

text \<open>One round of the \<^verbatim>\<open>while True\<close>, after the sleep; \<open>now\<close> is the clock reading.\<close>

definition context_appending_tick ::
  "rat \<Rightarrow> state \<Rightarrow> state \<times> effect list \<times> error option" where
  "context_appending_tick now s =
     (case context_id_start_timestamp s of
        None \<Rightarrow> (s, [], None)
      | Some t0 \<Rightarrow>
          if t0 = 0 then (s, [], None)
          else
            (let (buf, es, r) = pop_due (now - t0) (timestamped_words_buffer s)
             in (s\<lparr> timestamped_words_buffer := buf \<rparr>, es, r)))"

text \<open>
  \<^verbatim>\<open>_context_appending_task_handler\<close> on the clock readings of its successive rounds.
  As in the receive loop, an exception is logged and ends the coroutine.
\<close>

fun context_appending_task_handler :: "rat list \<Rightarrow> state \<Rightarrow> state \<times> effect list" where
  "context_appending_task_handler [] s = (s, [])"
| "context_appending_task_handler (now # nows) s =
     (case context_appending_tick now s of
        (s', es, Some e) \<Rightarrow> (s', es @ [LogException e])
      | (s', es, None) \<Rightarrow>
          (let (s'', es') = context_appending_task_handler nows s' in (s'', es @ es')))"

section \<open>Outbound request encoder\<close>

datatype outcome = Yielded | Returned | Raised error

definition build_request :: "config \<Rightarrow> string \<Rightarrow> string \<Rightarrow> request" where
  "build_request cfg text c =
     \<lparr> req_transcript = text @ '' '', req_continue = True, req_context_id = c,
       req_model_id = model_id cfg, req_voice_mode = ''id'', req_voice_id = voice_id cfg,
       req_output_format = output_format cfg, req_language = language cfg,
       req_add_timestamps = True \<rparr>"

text \<open>
  \<^verbatim>\<open>self._websocket.send(...)\<close>: without a handle the attribute access raises; with one,
  \<open>send_ok\<close> says whether the send returns.
\<close>

fun ws_send :: "ws option \<Rightarrow> request \<Rightarrow> bool \<Rightarrow> error + effect list" where
  "ws_send None r send_ok = Inl AttributeError"
| "ws_send (Some w) r send_ok = (if send_ok then Inr [WsSend w r] else Inl SendError)"

text \<open>
  \<^verbatim>\<open>run_tts\<close>. \<open>uuid\<close> is the identifier \<^verbatim>\<open>uuid4\<close> would return; \<open>conn1\<close> and \<open>conn2\<close>
  are the outcomes of the first connect and of the reconnect, if they are made.
\<close>

text \<open>
  The context id after \<^verbatim>\<open>if not self._context_id: self._context_id = str(uuid.uuid4())\<close>:
  \<^verbatim>\<open>None\<close> and the empty string are false.
\<close>

definition open_context :: "string \<Rightarrow> state \<Rightarrow> string" where
  "open_context uuid s =
     (case context_id s of None \<Rightarrow> uuid | Some c \<Rightarrow> if c = [] then uuid else c)"

definition run_tts ::
  "config \<Rightarrow> string \<Rightarrow> string \<Rightarrow> ws option \<Rightarrow> bool \<Rightarrow> bool \<Rightarrow> ws option \<Rightarrow> state
     \<Rightarrow> state \<times> effect list \<times> outcome" where
  "run_tts cfg text uuid conn1 send_ok close_ok conn2 s =
     (let (s1, e1) = (if websocket s = None then connect cfg conn1 s else (s, []));
          (s2, e2) = (if \<not> waiting_for_ttfb s1
                      then (s1\<lparr> waiting_for_ttfb := True \<rparr>, [StartTtfbMetrics])
                      else (s1, []));
          s3 = s2\<lparr> context_id := Some (open_context uuid s2) \<rparr>;
          msg = build_request cfg text (open_context uuid s2)
      in case ws_send (websocket s3) msg send_ok of
           Inr e3 \<Rightarrow> (s3, e1 @ e2 @ e3, Yielded)
         | Inl err \<Rightarrow>
             (let (s4, e4) = disconnect close_ok s3;
                  (s5, e5) = connect cfg conn2 s4
              in (s5, e1 @ e2 @ [LogException err] @ e4 @ e5, Returned)))"

section \<open>Example values\<close>

text \<open>The configuration of the example script, with the defaults of \<^verbatim>\<open>__init__\<close>.\<close>

definition default_config :: config where
  "default_config =
     \<lparr> api_key = ''key'', cartesia_version = ''2024-06-10'',
       url = ''wss://api.cartesia.ai/tts/websocket'',
       voice_id = ''a0e99841-438c-4a64-b679-ae501e7d6091'', model_id = ''sonic-english'',
       output_format = \<lparr> container = ''raw'', encoding = ''pcm_s16le'', sample_rate = 16000 \<rparr>,
       language = ''en'' \<rparr>"

text \<open>
  Server messages as the wire protocol shapes them: a type tag, the context id, and the
  payload of that type.
\<close>

definition chunk_message :: "string \<Rightarrow> string \<Rightarrow> json" where
  "chunk_message c d =
     JObj [(''type'', JStr ''chunk''), (''context_id'', JStr c), (''data'', JStr d)]"

definition timestamps_message :: "string \<Rightarrow> (string \<times> rat) list \<Rightarrow> json" where
  "timestamps_message c ws =
     JObj [(''type'', JStr ''timestamps''), (''context_id'', JStr c),
           (''word_timestamps'',
            JObj [(''words'', JArr (map (\<lambda>p. JStr (fst p)) ws)),
                  (''end'', JArr (map (\<lambda>p. JNum (snd p)) ws))])]"

definition done_message :: "string \<Rightarrow> json" where
  "done_message c = JObj [(''type'', JStr ''done''), (''context_id'', JStr c)]"

text \<open>
  The service after \<^verbatim>\<open>start\<close> connected it (handle 1) and one sentence was sent under
  the context \<open>''c1''\<close>.
\<close>

definition example_connected :: state where
  "example_connected = fst (connect default_config (Some 1) init)"

definition example_started :: state where
  "example_started =
     fst (run_tts default_config ''Hello.'' ''c1'' None True True None example_connected)"

text \<open>
  The first response played to its end: its first chunk arrives at clock reading 100,
  its \<^verbatim>\<open>done\<close> follows, and the scheduler round at 100.1 replays the sentinel. Then a
  second sentence is sent, which opens the context \<open>''c2''\<close>.
\<close>

definition example_first_done :: state where
  "example_first_done =
     fst (context_appending_task_handler [1001 / 10]
       (fst (receive_task_handler Some default_config
          [(100, Json (chunk_message ''c1'' ''AAAA'')), (100, Json (done_message ''c1''))]
          example_started)))"

definition example_second_started :: state where
  "example_second_started =
     fst (run_tts default_config ''Again.'' ''c2'' None True True None example_first_done)"

text \<open>
  The first response fully received but not yet replayed: first chunk at clock reading
  100, then the timestamps of two words, then \<^verbatim>\<open>done\<close>. The offsets, like the clock
  readings of the rounds replayed against them below, are numbers that binary floating
  point holds exactly, so that the differences and comparisons of the program are the
  ones of the model.
\<close>

definition example_buffered :: state where
  "example_buffered =
     fst (receive_task_handler Some default_config
       [(100, Json (chunk_message ''c1'' ''AAAA'')),
        (100, Json (timestamps_message ''c1'' [(''hello'', 1 / 4), (''world'', 1 / 2)])),
        (100, Json (done_message ''c1''))]
       example_started)"

text \<open>
  The same, where the server's first word is the text \<open>''LLMFullResponseEndFrame''\<close> with
  end offset 0.
\<close>

definition example_marker_word :: state where
  "example_marker_word =
     fst (receive_task_handler Some default_config
       [(100, Json (chunk_message ''c1'' ''AAAA'')),
        (100, Json (timestamps_message ''c1''
                      [(''LLMFullResponseEndFrame'', 0), (''x'', 1 / 4)])),
        (100, Json (done_message ''c1''))]
       example_started)"

section \<open>Observations on runs\<close>

text \<open>The frames an effect list pushes downstream, in order.\<close>

fun pushed_frames :: "effect list \<Rightarrow> frame list" where
  "pushed_frames [] = []"
| "pushed_frames (PushFrame f # es) = f # pushed_frames es"
| "pushed_frames (_ # es) = pushed_frames es"

text \<open>The requests an effect list sends, in order.\<close>

fun sent_requests :: "effect list \<Rightarrow> request list" where
  "sent_requests [] = []"
| "sent_requests (WsSend w q # es) = q # sent_requests es"
| "sent_requests (_ # es) = sent_requests es"

text \<open>
  The handle \<^verbatim>\<open>run_tts\<close> has when it sends: the one the state holds, or else the one its
  first connect returns.
\<close>

definition handle_for_send :: "ws option \<Rightarrow> state \<Rightarrow> ws option" where
  "handle_for_send conn1 s = (case websocket s of None \<Rightarrow> conn1 | Some w \<Rightarrow> Some w)"

text \<open>
  What one connect attempt shows: the attempt, then the two tasks it creates or the
  exception it logs.
\<close>

definition connect_attempt :: "config \<Rightarrow> ws option \<Rightarrow> effect list" where
  "connect_attempt cfg res =
     (case res of
        Some w \<Rightarrow> [WsConnect (connect_url cfg), CreateTask ReceiveTask,
                   CreateTask ContextAppendingTask]
      | None \<Rightarrow> [WsConnect (connect_url cfg), LogException ConnectError])"

text \<open>
  The background tasks the service holds when \<^verbatim>\<open>run_tts\<close> sends: those its first
  connect created, or else those the state holds.
\<close>

definition tasks_for_send :: "ws option \<Rightarrow> state \<Rightarrow> task list" where
  "tasks_for_send conn1 s =
     (if websocket s = None \<and> conn1 \<noteq> None then [ContextAppendingTask, ReceiveTask]
      else (if context_appending_task s \<noteq> None then [ContextAppendingTask] else [])
           @ (if receive_task s \<noteq> None then [ReceiveTask] else []))"

text \<open>The tasks an effect list cancels, in order.\<close>

fun cancelled_tasks :: "effect list \<Rightarrow> task list" where
  "cancelled_tasks [] = []"
| "cancelled_tasks (CancelTask t # es) = t # cancelled_tasks es"
| "cancelled_tasks (_ # es) = cancelled_tasks es"

text \<open>The background tasks the state holds, in the order \<^verbatim>\<open>disconnect\<close> visits them.\<close>

definition running_tasks :: "state \<Rightarrow> task list" where
  "running_tasks s =
     (if context_appending_task s \<noteq> None then [ContextAppendingTask] else [])
     @ (if receive_task s \<noteq> None then [ReceiveTask] else [])"

text \<open>A timeline entry whose offset is a number.\<close>

definition numeric_entry :: "json \<times> rat \<Rightarrow> json \<times> json" where
  "numeric_entry p = (fst p, JNum (snd p))"

text \<open>A timeline entry as a \<^verbatim>\<open>timestamps\<close> message delivers it: a word and its end offset.\<close>

definition word_entry :: "string \<times> rat \<Rightarrow> json \<times> json" where
  "word_entry p = (JStr (fst p), JNum (snd p))"

text \<open>The pair the scheduler takes for the completion sentinel, among word entries.\<close>

definition sentinel_like :: "string \<times> rat \<Rightarrow> bool" where
  "sentinel_like p = (fst p = ''LLMFullResponseEndFrame'' \<and> snd p = 0)"

section \<open>Messages of another context\<close>

lemma subscript_Inr_truthy: "subscript msg k = Inr v \<Longrightarrow> truthy msg"
  by (cases msg) (auto split: option.splits)

text \<open>
  Claim C8. A server message whose context id differs from the tracked one (as Python's
  \<^verbatim>\<open>!=\<close> decides) changes no field of the state and has no effect: no frame is pushed,
  no hook is called, nothing is logged; the loop goes on with the next message.
\<close>

theorem stale_message_no_effect:
  assumes "subscript msg ''context_id'' = Inr v"
    and "context_differs v (context_id s)"
  shows "receive_message b64 cfg now (Json msg) s = (s, [], None)
       \<and> receive_task_handler b64 cfg ((now, Json msg) # ms) s
           = receive_task_handler b64 cfg ms s"
proof -
  have t: "truthy msg" using assms(1) by (rule subscript_Inr_truthy)
  have step: "receive_message b64 cfg now (Json msg) s = (s, [], None)"
    using assms t by (simp add: receive_message_def)
  then show ?thesis by simp
qed

theorem stale_message_no_effect_witness:
  "receive_message Some default_config 7
     (Json (JObj [(''type'', JStr ''chunk''), (''context_id'', JStr ''c1''),
                  (''data'', JStr ''AAAA'')]))
     (init\<lparr> context_id := Some ''c2'', waiting_for_ttfb := True \<rparr>)
   = (init\<lparr> context_id := Some ''c2'', waiting_for_ttfb := True \<rparr>, [], None)"
proof -
  have h1: "subscript (JObj [(''type'', JStr ''chunk''), (''context_id'', JStr ''c1''),
                  (''data'', JStr ''AAAA'')]) ''context_id'' = Inr (JStr ''c1'')"
    by simp
  have h2: "context_differs (JStr ''c1'')
              (context_id (init\<lparr> context_id := Some ''c2'', waiting_for_ttfb := True \<rparr>))"
    by simp
  show ?thesis
    using stale_message_no_effect [OF h1 h2, of Some default_config 7 "[]"] by simp
qed

section \<open>Interruption\<close>

lemma example_connected_eq:
  "example_connected = init\<lparr> websocket := Some 1, receive_task := Some ReceiveTask,
      context_appending_task := Some ContextAppendingTask \<rparr>"
  by (simp add: example_connected_def)

lemma example_started_eq:
  "example_started = init\<lparr> websocket := Some 1, receive_task := Some ReceiveTask,
      context_appending_task := Some ContextAppendingTask, waiting_for_ttfb := True,
      context_id := Some ''c1'' \<rparr>"
  by (simp add: example_started_def example_connected_eq run_tts_def init_def open_context_def)

lemma pushed_frames_append: "pushed_frames (xs @ ys) = pushed_frames xs @ pushed_frames ys"
  by (induction xs rule: pushed_frames.induct) auto

lemma tick_without_timestamp:
  "context_id_start_timestamp s = None \<Longrightarrow> context_appending_tick now s = (s, [], None)"
  by (simp add: context_appending_tick_def)

lemma ticks_without_timestamp:
  "context_id_start_timestamp s = None \<Longrightarrow> context_appending_task_handler nows s = (s, [])"
  by (induction nows) (simp_all add: tick_without_timestamp)

lemma string_id_without_context:
  "context_id s = None \<Longrightarrow>
   receive_message b64 cfg now (Json (JObj ((''context_id'', JStr c) # kvs))) s = (s, [], None)"
  by (simp add: receive_message_def)

text \<open>
  Claim C4. In every state, \<^verbatim>\<open>handle_interruption\<close> clears the context id, the start
  timestamp and the timeline buffer, calls the hook that stops all metrics, and pushes
  exactly one frame itself, the end-of-response marker. Afterwards the scheduler finds
  nothing to replay, at any clock reading and over any number of rounds, and a message
  that bears a string context id (so any message of the interrupted context) is
  dropped: no text frame of the interrupted context follows.
\<close>

theorem interruption_resets_and_marks:
  "context_id (fst (handle_interruption s)) = None
   \<and> context_id_start_timestamp (fst (handle_interruption s)) = None
   \<and> timestamped_words_buffer (fst (handle_interruption s)) = []
   \<and> StopAllMetrics \<in> set (snd (handle_interruption s))
   \<and> pushed_frames (snd (handle_interruption s)) = [LLMFullResponseEndFrame]
   \<and> context_appending_tick now (fst (handle_interruption s))
       = (fst (handle_interruption s), [], None)
   \<and> context_appending_task_handler nows (fst (handle_interruption s))
       = (fst (handle_interruption s), [])
   \<and> receive_message b64 cfg now' (Json (JObj ((''context_id'', JStr c) # kvs)))
         (fst (handle_interruption s))
       = (fst (handle_interruption s), [], None)"
proof -
  let ?s' = "fst (handle_interruption s)"
  have c: "context_id ?s' = None" and t: "context_id_start_timestamp ?s' = None"
    and b: "timestamped_words_buffer ?s' = []"
    by (simp_all add: handle_interruption_def)
  have e: "StopAllMetrics \<in> set (snd (handle_interruption s))"
    "pushed_frames (snd (handle_interruption s)) = [LLMFullResponseEndFrame]"
    by (simp_all add: handle_interruption_def)
  show ?thesis
    using c t b e tick_without_timestamp [OF t] ticks_without_timestamp [OF t]
      string_id_without_context [OF c]
    by simp
qed

section \<open>Messages while no context is tracked\<close>

lemma falsy_message_dropped:
  "\<not> truthy msg \<Longrightarrow> receive_message b64 cfg now (Json msg) s = (s, [], None)"
  by (simp add: receive_message_def)

lemma nonnull_id_without_context:
  assumes "context_id s = None" and "subscript msg ''context_id'' = Inr v" and "v \<noteq> JNull"
  shows "receive_message b64 cfg now (Json msg) s = (s, [], None)"
  using assms subscript_Inr_truthy [OF assms(2)] by (simp add: receive_message_def)

lemma done_clears_context:
  "context_id s = Some c \<Longrightarrow>
   receive_message b64 cfg now (Json (done_message c)) s
     = (s\<lparr> context_id := None,
           timestamped_words_buffer := timestamped_words_buffer s @ [sentinel] \<rparr>, [], None)"
  by (simp add: receive_message_def done_message_def)

lemma after_done_example:
  "fst (receive_message Some default_config 8 (Json (done_message ''c1'')) example_started)
   = example_started\<lparr> context_id := None, timestamped_words_buffer := [sentinel] \<rparr>"
  by (simp add: done_clears_context example_started_eq init_def)

text \<open>
  Claim C10, as stated, fails: with no context tracked, a message whose context id is
  JSON \<^verbatim>\<open>null\<close> passes the filter (\<^verbatim>\<open>None != None\<close> is false). Here such a chunk
  sets the start timestamp and pushes an audio frame.
\<close>

theorem null_id_chunk_processed_without_context:
  "context_id init = None
   \<and> receive_message Some default_config 5
        (Json (JObj [(''type'', JStr ''chunk''), (''context_id'', JNull),
                     (''data'', JStr ''AAAA'')])) init
      = (init\<lparr> context_id_start_timestamp := Some 5 \<rparr>,
         [PushFrame (AudioRawFrame ''AAAA'' 16000 1)], None)"
  by (simp add: receive_message_def on_chunk_def init_def default_config_def)

text \<open>
  Claim C10, amended. While no context id is tracked, every message that is empty or
  carries a context id other than \<^verbatim>\<open>null\<close> is discarded: the state is unchanged, there
  is no effect, the loop goes on. A \<^verbatim>\<open>done\<close> message of the tracked context leaves no
  context tracked, so the late \<^verbatim>\<open>timestamps\<close> and \<^verbatim>\<open>chunk\<close> messages of that
  context are among the discarded ones.
\<close>

theorem messages_dropped_without_context:
  assumes "context_id s = None"
    and "\<not> truthy msg \<or> (\<exists>v. subscript msg ''context_id'' = Inr v \<and> v \<noteq> JNull)"
  shows "receive_message b64 cfg now (Json msg) s = (s, [], None)
       \<and> receive_task_handler b64 cfg ((now, Json msg) # ms) s
           = receive_task_handler b64 cfg ms s
       \<and> context_id (fst (receive_message b64 cfg t (Json (done_message c))
                            (s0\<lparr> context_id := Some c \<rparr>))) = None"
proof -
  have "receive_message b64 cfg now (Json msg) s = (s, [], None)"
    using assms(2)
  proof
    assume "\<not> truthy msg"
    then show ?thesis by (rule falsy_message_dropped)
  next
    assume "\<exists>v. subscript msg ''context_id'' = Inr v \<and> v \<noteq> JNull"
    then obtain v where "subscript msg ''context_id'' = Inr v" "v \<noteq> JNull" by blast
    then show ?thesis using assms(1) by (simp add: nonnull_id_without_context)
  qed
  then show ?thesis by (simp add: done_clears_context)
qed

theorem messages_dropped_without_context_witness:
  "receive_message Some default_config 9
     (Json (timestamps_message ''c1'' [(''hello'', 3 / 10), (''world'', 6 / 10)]))
     (fst (receive_message Some default_config 8 (Json (done_message ''c1'')) example_started))
   = (fst (receive_message Some default_config 8 (Json (done_message ''c1'')) example_started),
      [], None)"
proof -
  let ?s = "fst (receive_message Some default_config 8 (Json (done_message ''c1''))
                  example_started)"
  let ?m = "timestamps_message ''c1'' [(''hello'', 3 / 10), (''world'', 6 / 10)]"
  have h1: "context_id ?s = None" by (simp add: after_done_example)
  have "subscript ?m ''context_id'' = Inr (JStr ''c1'')"
    by (simp add: timestamps_message_def)
  then have h2: "\<not> truthy ?m \<or> (\<exists>v. subscript ?m ''context_id'' = Inr v \<and> v \<noteq> JNull)"
    by simp
  show ?thesis
    using messages_dropped_without_context [OF h1 h2, of Some default_config 9] by simp
qed

section \<open>Errors in the receive loop\<close>

text \<open>
  Claim C3, as stated, fails. A message that is a non-empty object without a
  \<^verbatim>\<open>context_id\<close> key raises \<^verbatim>\<open>KeyError\<close>; the exception is logged and ends the loop,
  so the chunk of the tracked context that follows is never handled (alone, it pushes an
  audio frame).
\<close>

theorem message_without_id_ends_loop:
  "receive_task_handler Some default_config
     [(1, Json (JObj [(''type'', JStr ''chunk''), (''data'', JStr ''AAAA'')])),
      (2, Json (chunk_message ''c1'' ''AAAA''))]
     example_started
   = (example_started, [LogException (KeyError ''context_id'')])
   \<and> receive_task_handler Some default_config [(2, Json (chunk_message ''c1'' ''AAAA''))]
       example_started
   = (example_started\<lparr> context_id_start_timestamp := Some 2, waiting_for_ttfb := False \<rparr>,
      [StopTtfbMetrics, PushFrame (AudioRawFrame ''AAAA'' 16000 1)])"
  by (simp add: receive_message_def on_chunk_def example_started_eq init_def
      default_config_def chunk_message_def)

text \<open>
  Claim C3, amended. An empty (false) message is dropped without any effect and the
  loop goes on. An exception raised while one message is handled (a text that does not
  decode, a non-empty message without a context id, ...) is logged once and ends the
  loop: the state and the effects are those reached when it was raised, and no later
  message is handled.
\<close>

theorem receive_loop_errors:
  "(\<not> truthy msg \<longrightarrow>
      receive_task_handler b64 cfg ((now, Json msg) # ms) s
        = receive_task_handler b64 cfg ms s)
   \<and> (receive_message b64 cfg now m s = (s', es, Some e) \<longrightarrow>
        receive_task_handler b64 cfg ((now, m) # ms) s = (s', es @ [LogException e]))
   \<and> receive_message b64 cfg now Invalid s = (s, [], Some JSONDecodeError)
   \<and> (truthy msg \<and> subscript msg ''context_id'' = Inl e' \<longrightarrow>
        receive_message b64 cfg now (Json msg) s = (s, [], Some e'))"
  by (simp add: falsy_message_dropped) (simp add: receive_message_def)

theorem receive_loop_errors_witness:
  "receive_task_handler Some default_config
     [(1, Json (JObj [])), (2, Invalid), (3, Json (chunk_message ''c1'' ''AAAA''))]
     example_started
   = (example_started, [LogException JSONDecodeError])"
proof -
  have h1: "\<not> truthy (JObj [])" by simp
  have h2: "receive_message Some default_config 2 Invalid example_started
            = (example_started, [], Some JSONDecodeError)"
    by (simp add: receive_message_def)
  show ?thesis
    using h1 h2
      receive_loop_errors [where msg = "JObj []" and ?b64.0 = Some and cfg = default_config
        and now = 1 and ms = "[(2, Invalid), (3, Json (chunk_message ''c1'' ''AAAA''))]"
        and s = example_started]
      receive_loop_errors [where ?b64.0 = Some and cfg = default_config and now = 2
        and ms = "[(3, Json (chunk_message ''c1'' ''AAAA''))]" and s = example_started
        and m = Invalid and s' = example_started and es = "[]" and e = JSONDecodeError]
    by simp
qed

section \<open>Cancellation of the background tasks\<close>

lemma cancelled_tasks_append:
  "cancelled_tasks (xs @ ys) = cancelled_tasks xs @ cancelled_tasks ys"
  by (induction xs rule: cancelled_tasks.induct) auto

lemma cancel_tasks_effects: "snd (cancel_tasks s) = map CancelTask (running_tasks s)"
  by (simp add: cancel_tasks_def running_tasks_def)

lemma cancel_tasks_state:
  "fst (cancel_tasks s) = s\<lparr> context_appending_task := None, receive_task := None \<rparr>"
  by (cases s) (simp add: cancel_tasks_def)

lemma disconnect_unfolded:
  "disconnect close_ok s =
     (case websocket s of
        None \<Rightarrow> (reset_context (s\<lparr> context_appending_task := None, receive_task := None \<rparr>),
                 map CancelTask (running_tasks s) @ [StopAllMetrics])
      | Some w \<Rightarrow>
          if close_ok
          then (reset_context (s\<lparr> context_appending_task := None, receive_task := None,
                                  websocket := None \<rparr>),
                map CancelTask (running_tasks s) @ [WsClose w, StopAllMetrics])
          else (s\<lparr> context_appending_task := None, receive_task := None, websocket := None \<rparr>,
                map CancelTask (running_tasks s) @ [WsClose w, LogException CloseError]))"
proof -
  obtain s2 e2 where c: "cancel_tasks s = (s2, e2)" by (cases "cancel_tasks s")
  have s2: "s2 = s\<lparr> context_appending_task := None, receive_task := None \<rparr>"
    using c cancel_tasks_state [of s] by simp
  have e2: "e2 = map CancelTask (running_tasks s)"
    using c cancel_tasks_effects [of s] by simp
  show ?thesis
    unfolding disconnect_def c by (simp add: s2 e2 split: option.splits)
qed

text \<open>
  Claim C5, as stated, fails: \<^verbatim>\<open>handle_interruption\<close> cancels no task. After an
  interruption of the started example both task handles are still in place and no
  cancellation is among the effects.
\<close>

theorem interruption_keeps_tasks_running:
  "receive_task (fst (handle_interruption example_started)) = Some ReceiveTask
   \<and> context_appending_task (fst (handle_interruption example_started))
       = Some ContextAppendingTask
   \<and> snd (handle_interruption example_started)
       = [SuperHandleInterruption, StopAllMetrics, PushFrame LLMFullResponseEndFrame]
   \<and> cancelled_tasks (snd (handle_interruption example_started)) = []"
  by (simp add: handle_interruption_def example_started_eq init_def)

text \<open>
  Claim C5, amended. The effects of \<^verbatim>\<open>disconnect\<close> are, in this order: a cancellation
  request for each background task the state holds (the scheduler, then the
  demultiplexer); the close of the handle, if there is one; the stop of all metrics or,
  when the close raises, the logged exception. It requests no other cancellation, and
  both task attributes are empty afterwards. \<^verbatim>\<open>handle_interruption\<close> requests no
  cancellation and leaves both task attributes as they are.
\<close>

theorem disconnect_cancels_interruption_does_not:
  "receive_task (fst (disconnect close_ok s)) = None
   \<and> context_appending_task (fst (disconnect close_ok s)) = None
   \<and> snd (disconnect close_ok s)
       = map CancelTask (running_tasks s)
         @ (case websocket s of
              None \<Rightarrow> [StopAllMetrics]
            | Some w \<Rightarrow> if close_ok then [WsClose w, StopAllMetrics]
                       else [WsClose w, LogException CloseError])
   \<and> (\<exists>rest. snd (disconnect close_ok s) = map CancelTask (running_tasks s) @ rest
              \<and> cancelled_tasks rest = [])
   \<and> cancelled_tasks (snd (disconnect close_ok s)) = running_tasks s
   \<and> receive_task (fst (handle_interruption s)) = receive_task s
   \<and> context_appending_task (fst (handle_interruption s)) = context_appending_task s
   \<and> cancelled_tasks (snd (handle_interruption s)) = []"
proof -
  have ct: "cancelled_tasks (map CancelTask ts) = ts" for ts
    by (induction ts) simp_all
  have a: "receive_task (fst (disconnect close_ok s)) = None"
    "context_appending_task (fst (disconnect close_ok s)) = None"
    by (simp_all add: disconnect_unfolded reset_context_def split: option.splits)
  have b: "\<exists>rest. snd (disconnect close_ok s) = map CancelTask (running_tasks s) @ rest
              \<and> cancelled_tasks rest = []"
    by (cases "websocket s"; cases close_ok) (simp_all add: disconnect_unfolded)
  then have c: "cancelled_tasks (snd (disconnect close_ok s)) = running_tasks s"
    by (auto simp: cancelled_tasks_append ct)
  have x: "snd (disconnect close_ok s)
       = map CancelTask (running_tasks s)
         @ (case websocket s of
              None \<Rightarrow> [StopAllMetrics]
            | Some w \<Rightarrow> if close_ok then [WsClose w, StopAllMetrics]
                       else [WsClose w, LogException CloseError])"
    by (cases "websocket s"; cases close_ok) (simp_all add: disconnect_unfolded)
  have d: "receive_task (fst (handle_interruption s)) = receive_task s"
    "context_appending_task (fst (handle_interruption s)) = context_appending_task s"
    "cancelled_tasks (snd (handle_interruption s)) = []"
    by (simp_all add: handle_interruption_def)
  show ?thesis using a b c d x by simp
qed

section \<open>Disconnecting\<close>

text \<open>
  When there is no handle or the close returns, \<^verbatim>\<open>disconnect\<close> leaves the initial state,
  and a second call changes nothing.
\<close>

lemma disconnect_resets_when_close_returns:
  "websocket s = None \<or> close_ok \<Longrightarrow> fst (disconnect close_ok s) = init"
  by (cases s) (auto simp: disconnect_unfolded reset_context_def init_def split: option.splits)

lemma disconnect_idempotent_when_close_returns:
  "websocket s = None \<or> close_ok \<Longrightarrow>
   fst (disconnect ok2 (fst (disconnect close_ok s))) = fst (disconnect close_ok s)"
  by (simp add: disconnect_resets_when_close_returns) (simp add: init_def disconnect_resets_when_close_returns)

text \<open>
  Claim C6 at the input where the code departs from it: the handle is open, a context
  is under way, and \<^verbatim>\<open>ws.close()\<close> raises. The handle and the tasks are dropped, but
  the context id, the start timestamp, the buffer and the TTFB flag keep their values;
  a second call then resets them, so two calls do not leave the state of one.
\<close>

theorem disconnect_close_failure_keeps_context:
  "disconnect False (example_started\<lparr> timestamped_words_buffer := [(JStr ''hello'', JNum (3 / 10))],
                                     context_id_start_timestamp := Some 100 \<rparr>)
   = (init\<lparr> context_id := Some ''c1'', context_id_start_timestamp := Some 100,
            timestamped_words_buffer := [(JStr ''hello'', JNum (3 / 10))],
            waiting_for_ttfb := True \<rparr>,
      [CancelTask ContextAppendingTask, CancelTask ReceiveTask, WsClose 1,
       LogException CloseError])
   \<and> fst (disconnect True (fst (disconnect False example_started))) = init
   \<and> fst (disconnect False example_started) \<noteq> init"
  by (simp add: disconnect_unfolded running_tasks_def example_started_eq init_def
      reset_context_def)

section \<open>Sending a synthesis request\<close>

lemma sent_requests_append: "sent_requests (xs @ ys) = sent_requests xs @ sent_requests ys"
  by (induction xs rule: sent_requests.induct) auto

lemma connect_effects_no_send: "sent_requests (snd (connect cfg res s)) = []"
  by (cases res) simp_all

lemma connect_context: "context_id (fst (connect cfg res s)) = context_id s"
  and connect_websocket: "websocket (fst (connect cfg res s)) = res"
  and connect_waiting: "waiting_for_ttfb (fst (connect cfg res s)) = waiting_for_ttfb s"
  by (cases res; simp)+

lemma connect_first_effect: "\<exists>rest. snd (connect cfg res s) = WsConnect (connect_url cfg) # rest"
  by (cases res) simp_all

lemma disconnect_no_send: "sent_requests (snd (disconnect close_ok s)) = []"
proof -
  have "sent_requests (map CancelTask ts) = []" for ts by (induction ts) simp_all
  then show ?thesis
    by (simp add: disconnect_unfolded sent_requests_append split: option.splits)
qed

lemma run_tts_failed:
  assumes "handle_for_send conn1 s = None \<or> \<not> send_ok"
  shows "\<exists>s3 pre. run_tts cfg text uuid conn1 send_ok close_ok conn2 s
           = (fst (connect cfg conn2 (fst (disconnect close_ok s3))),
              pre @ snd (disconnect close_ok s3)
                  @ snd (connect cfg conn2 (fst (disconnect close_ok s3))),
              Returned)
         \<and> sent_requests pre = []
         \<and> websocket s3 = handle_for_send conn1 s"
proof -
  define s1 where "s1 = (if websocket s = None then fst (connect cfg conn1 s) else s)"
  define e1 where "e1 = (if websocket s = None then snd (connect cfg conn1 s) else [])"
  define e2 where "e2 = (if waiting_for_ttfb s then [] else [StartTtfbMetrics])"
  define s3 where "s3 = (if waiting_for_ttfb s then s1 else s1\<lparr> waiting_for_ttfb := True \<rparr>)
                         \<lparr> context_id := Some (open_context uuid s) \<rparr>"
  define err where "err = (if handle_for_send conn1 s = None then AttributeError else SendError)"
  have w3: "websocket s3 = handle_for_send conn1 s"
    by (cases "websocket s") (simp_all add: s3_def s1_def handle_for_send_def connect_websocket)
  have r: "run_tts cfg text uuid conn1 send_ok close_ok conn2 s
      = (fst (connect cfg conn2 (fst (disconnect close_ok s3))),
         (e1 @ e2 @ [LogException err]) @ snd (disconnect close_ok s3)
           @ snd (connect cfg conn2 (fst (disconnect close_ok s3))), Returned)"
  proof (cases "websocket s")
    case None
    show ?thesis
    proof (cases conn1)
      case N: None
      show ?thesis using None N
        by (cases "waiting_for_ttfb s")
          (simp_all add: run_tts_def s1_def e1_def e2_def s3_def err_def handle_for_send_def
            open_context_def split_beta Let_def)
    next
      case (Some w)
      then have "\<not> send_ok" using assms None by (simp add: handle_for_send_def)
      then show ?thesis using None Some
        by (cases "waiting_for_ttfb s")
          (simp_all add: run_tts_def s1_def e1_def e2_def s3_def err_def handle_for_send_def
            open_context_def split_beta Let_def)
    qed
  next
    case (Some w)
    then have "\<not> send_ok" using assms by (simp add: handle_for_send_def)
    then show ?thesis using Some
      by (cases "waiting_for_ttfb s")
        (simp_all add: run_tts_def s1_def e1_def e2_def s3_def err_def handle_for_send_def
          open_context_def split_beta Let_def)
  qed
  have n: "sent_requests (e1 @ e2 @ [LogException err]) = []"
    by (simp add: sent_requests_append e1_def e2_def connect_effects_no_send)
  show ?thesis using r n w3 by blast
qed


lemma run_tts_effects_shape:
  "\<exists>e3. fst (snd (run_tts cfg text uuid conn1 send_ok close_ok conn2 s))
     = (if websocket s = None then snd (connect cfg conn1 s) else [])
       @ (if waiting_for_ttfb s then [] else [StartTtfbMetrics]) @ e3"
proof (cases "websocket s")
  case None
  show ?thesis using None
    by (cases conn1; cases "waiting_for_ttfb s"; cases send_ok)
      (simp_all add: run_tts_def split_beta Let_def)
next
  case (Some w)
  show ?thesis using Some
    by (cases "waiting_for_ttfb s"; cases send_ok)
      (simp_all add: run_tts_def split_beta Let_def)
qed

lemma run_tts_connects_first:
  assumes "websocket s = None"
  shows "\<exists>rest. fst (snd (run_tts cfg text uuid conn1 send_ok close_ok conn2 s))
           = WsConnect (connect_url cfg) # rest"
proof -
  obtain e3 where "fst (snd (run_tts cfg text uuid conn1 send_ok close_ok conn2 s))
     = snd (connect cfg conn1 s) @ (if waiting_for_ttfb s then [] else [StartTtfbMetrics]) @ e3"
    using run_tts_effects_shape [of cfg "text" uuid conn1 send_ok close_ok conn2 s] assms
    by auto
  moreover obtain rest where "snd (connect cfg conn1 s) = WsConnect (connect_url cfg) # rest"
    using connect_first_effect by blast
  ultimately show ?thesis by simp
qed

lemma run_tts_starts_ttfb:
  assumes "\<not> waiting_for_ttfb s"
  shows "StartTtfbMetrics \<in> set (fst (snd (run_tts cfg text uuid conn1 send_ok close_ok conn2 s)))"
proof -
  obtain e3 where "fst (snd (run_tts cfg text uuid conn1 send_ok close_ok conn2 s))
     = (if websocket s = None then snd (connect cfg conn1 s) else []) @ [StartTtfbMetrics] @ e3"
    using run_tts_effects_shape [of cfg "text" uuid conn1 send_ok close_ok conn2 s] assms
    by auto
  then show ?thesis by simp
qed

lemma connect_effects: "snd (connect cfg res s) = connect_attempt cfg res"
  by (cases res) (simp_all add: connect_attempt_def)

lemma connect_from_init:
  "fst (connect cfg res init)
   = (case res of
        None \<Rightarrow> init
      | Some w \<Rightarrow> init\<lparr> websocket := Some w, receive_task := Some ReceiveTask,
                        context_appending_task := Some ContextAppendingTask \<rparr>)"
  by (cases res) (simp_all add: init_def)

lemma disconnect_effects:
  "snd (disconnect close_ok s)
   = map CancelTask (running_tasks s)
     @ (case websocket s of
          None \<Rightarrow> [StopAllMetrics]
        | Some w \<Rightarrow> if close_ok then [WsClose w, StopAllMetrics]
                   else [WsClose w, LogException CloseError])"
  by (cases "websocket s"; cases close_ok) (simp_all add: disconnect_unfolded)

lemma disconnect_close_failed:
  "websocket s = Some w \<Longrightarrow>
   fst (disconnect False s)
     = s\<lparr> context_appending_task := None, receive_task := None, websocket := None \<rparr>"
  by (simp add: disconnect_unfolded)

lemma run_tts_failed_explicit:
  assumes "handle_for_send conn1 s = None \<or> \<not> send_ok"
  shows "run_tts cfg text uuid conn1 send_ok close_ok conn2 s
      = (fst (connect cfg conn2 (fst (disconnect close_ok
           ((if waiting_for_ttfb s
             then (if websocket s = None then fst (connect cfg conn1 s) else s)
             else (if websocket s = None then fst (connect cfg conn1 s) else s)
                    \<lparr> waiting_for_ttfb := True \<rparr>)
              \<lparr> context_id := Some (open_context uuid s) \<rparr>)))),
         ((if websocket s = None then snd (connect cfg conn1 s) else [])
          @ (if waiting_for_ttfb s then [] else [StartTtfbMetrics])
          @ [LogException (if handle_for_send conn1 s = None then AttributeError
                           else SendError)])
         @ snd (disconnect close_ok
           ((if waiting_for_ttfb s
             then (if websocket s = None then fst (connect cfg conn1 s) else s)
             else (if websocket s = None then fst (connect cfg conn1 s) else s)
                    \<lparr> waiting_for_ttfb := True \<rparr>)
              \<lparr> context_id := Some (open_context uuid s) \<rparr>))
         @ snd (connect cfg conn2 (fst (disconnect close_ok
           ((if waiting_for_ttfb s
             then (if websocket s = None then fst (connect cfg conn1 s) else s)
             else (if websocket s = None then fst (connect cfg conn1 s) else s)
                    \<lparr> waiting_for_ttfb := True \<rparr>)
              \<lparr> context_id := Some (open_context uuid s) \<rparr>)))),
         Returned)"
proof (cases "websocket s")
  case None
  show ?thesis
  proof (cases conn1)
    case N: None
    show ?thesis using None N
      by (cases "waiting_for_ttfb s")
        (simp_all add: run_tts_def handle_for_send_def open_context_def split_beta Let_def)
  next
    case (Some w)
    then have "\<not> send_ok" using assms None by (simp add: handle_for_send_def)
    then show ?thesis using None Some
      by (cases "waiting_for_ttfb s")
        (simp_all add: run_tts_def handle_for_send_def open_context_def split_beta Let_def)
  qed
next
  case (Some w)
  then have "\<not> send_ok" using assms by (simp add: handle_for_send_def)
  then show ?thesis using Some
    by (cases "waiting_for_ttfb s")
      (simp_all add: run_tts_def handle_for_send_def open_context_def split_beta Let_def)
qed

lemma run_tts_failed_exact:
  assumes "handle_for_send conn1 s = None \<or> \<not> send_ok"
  shows "fst (snd (run_tts cfg text uuid conn1 send_ok close_ok conn2 s))
      = (if websocket s = None then connect_attempt cfg conn1 else [])
        @ (if waiting_for_ttfb s then [] else [StartTtfbMetrics])
        @ [LogException (if handle_for_send conn1 s = None then AttributeError else SendError)]
        @ map CancelTask (tasks_for_send conn1 s)
        @ (case handle_for_send conn1 s of
             None \<Rightarrow> [StopAllMetrics]
           | Some w \<Rightarrow> if close_ok then [WsClose w, StopAllMetrics]
                      else [WsClose w, LogException CloseError])
        @ connect_attempt cfg conn2"
    and "handle_for_send conn1 s = None \<or> close_ok \<Longrightarrow>
         fst (run_tts cfg text uuid conn1 send_ok close_ok conn2 s)
         = (case conn2 of
              None \<Rightarrow> init
            | Some w \<Rightarrow> init\<lparr> websocket := Some w, receive_task := Some ReceiveTask,
                              context_appending_task := Some ContextAppendingTask \<rparr>)"
    and "snd (snd (run_tts cfg text uuid conn1 send_ok close_ok conn2 s)) = Returned"
proof -
  let ?s1 = "if websocket s = None then fst (connect cfg conn1 s) else s"
  let ?s3 = "(if waiting_for_ttfb s then ?s1 else ?s1\<lparr> waiting_for_ttfb := True \<rparr>)
               \<lparr> context_id := Some (open_context uuid s) \<rparr>"
  note r = run_tts_failed_explicit [OF assms, of cfg "text" uuid close_ok conn2]
  have w3: "websocket ?s3 = handle_for_send conn1 s"
    by (cases "websocket s") (simp_all add: handle_for_send_def connect_websocket)
  have t3: "running_tasks ?s3 = tasks_for_send conn1 s"
    by (cases "websocket s"; cases conn1)
      (simp_all add: running_tasks_def tasks_for_send_def)
  show "fst (snd (run_tts cfg text uuid conn1 send_ok close_ok conn2 s))
      = (if websocket s = None then connect_attempt cfg conn1 else [])
        @ (if waiting_for_ttfb s then [] else [StartTtfbMetrics])
        @ [LogException (if handle_for_send conn1 s = None then AttributeError else SendError)]
        @ map CancelTask (tasks_for_send conn1 s)
        @ (case handle_for_send conn1 s of
             None \<Rightarrow> [StopAllMetrics]
           | Some w \<Rightarrow> if close_ok then [WsClose w, StopAllMetrics]
                      else [WsClose w, LogException CloseError])
        @ connect_attempt cfg conn2"
    unfolding r by (simp only: fst_conv snd_conv disconnect_effects connect_effects w3 t3)
      simp
  show "snd (snd (run_tts cfg text uuid conn1 send_ok close_ok conn2 s)) = Returned"
    unfolding r by simp
  assume "handle_for_send conn1 s = None \<or> close_ok"
  then have "websocket ?s3 = None \<or> close_ok" using w3 by simp
  then have "fst (disconnect close_ok ?s3) = init"
    by (rule disconnect_resets_when_close_returns)
  then show "fst (run_tts cfg text uuid conn1 send_ok close_ok conn2 s)
         = (case conn2 of
              None \<Rightarrow> init
            | Some w \<Rightarrow> init\<lparr> websocket := Some w, receive_task := Some ReceiveTask,
                              context_appending_task := Some ContextAppendingTask \<rparr>)"
    unfolding r by (simp only: fst_conv connect_from_init)
qed

lemma run_tts_sent_exact:
  assumes "handle_for_send conn1 s = Some w" and send_ok
  shows "run_tts cfg text uuid conn1 send_ok close_ok conn2 s
         = ((if websocket s = None then fst (connect cfg conn1 s) else s)
              \<lparr> waiting_for_ttfb := True, context_id := Some (open_context uuid s) \<rparr>,
            (if websocket s = None then connect_attempt cfg conn1 else [])
            @ (if waiting_for_ttfb s then [] else [StartTtfbMetrics])
            @ [WsSend w (build_request cfg text (open_context uuid s))],
            Yielded)"
proof (cases "websocket s")
  case None
  then have c: "conn1 = Some w" using assms(1) by (simp add: handle_for_send_def)
  show ?thesis using None c assms(2)
    by (cases "waiting_for_ttfb s")
      (simp_all add: run_tts_def open_context_def connect_attempt_def)
next
  case (Some w')
  then have c: "w' = w" using assms(1) by (simp add: handle_for_send_def)
  show ?thesis using Some c assms(2)
    by (cases "waiting_for_ttfb s") (simp_all add: run_tts_def open_context_def)
qed

text \<open>
  Claim C7. For every call of \<^verbatim>\<open>run_tts\<close>: it yields once or returns, and raises
  nothing. Without a handle its first effect is a connect; without an open TTFB window
  it starts one. Without an open context (none, or the empty string) the context id
  becomes the identifier drawn from \<^verbatim>\<open>uuid4\<close>, which is outside any set of identifiers
  the draw is outside of; an open context is kept. When a handle is there and the send
  returns, the effects are the connect attempt (if one was made), the start of the TTFB
  window (if none was open) and then exactly one request: the text followed by one space,
  the continue flag, the context id now tracked, the flag that asks for timestamps, and
  the configured model, voice, format and language; the start timestamp and the buffer
  are untouched. When there is no handle or the send raises, nothing is sent: after the
  same first effects the exception is logged, each background task held is cancelled,
  the handle that failed is closed if there is one, the metrics are stopped (or the
  exception of the close is logged), and a connect is attempted; the handle is then
  what that connect gave; when the close returned or there was no handle, the state is
  the initial one with that connect's outcome; the call returns.
\<close>

theorem run_tts_contract:
  "(let r = run_tts cfg text uuid conn1 send_ok close_ok conn2 s;
        s' = fst r; es = fst (snd r); out = snd (snd r);
        before_send = (if websocket s = None then connect_attempt cfg conn1 else [])
                      @ (if waiting_for_ttfb s then [] else [StartTtfbMetrics])
    in (out = Yielded \<or> out = Returned)
     \<and> (websocket s = None \<longrightarrow> (\<exists>rest. es = WsConnect (connect_url cfg) # rest))
     \<and> (\<not> waiting_for_ttfb s \<longrightarrow> StartTtfbMetrics \<in> set es)
     \<and> (context_id s = None \<longrightarrow> open_context uuid s = uuid)
     \<and> (context_id s = Some [] \<longrightarrow> open_context uuid s = uuid)
     \<and> (\<forall>c. context_id s = Some c \<and> c \<noteq> [] \<longrightarrow> open_context uuid s = c)
     \<and> (\<forall>used. uuid \<notin> used \<and> (context_id s = None \<or> context_id s = Some [])
           \<longrightarrow> open_context uuid s \<notin> used)
     \<and> (\<forall>w. handle_for_send conn1 s = Some w \<and> send_ok \<longrightarrow>
           out = Yielded
           \<and> (\<exists>pre q. es = pre @ [WsSend w q] \<and> pre = before_send \<and> sent_requests pre = []
                 \<and> req_transcript q = text @ '' '' \<and> req_continue q
                 \<and> req_context_id q = open_context uuid s \<and> req_add_timestamps q
                 \<and> req_model_id q = model_id cfg \<and> req_voice_id q = voice_id cfg
                 \<and> req_output_format q = output_format cfg \<and> req_language q = language cfg)
           \<and> context_id s' = Some (open_context uuid s) \<and> websocket s' = Some w
           \<and> waiting_for_ttfb s'
           \<and> context_id_start_timestamp s' = context_id_start_timestamp s
           \<and> timestamped_words_buffer s' = timestamped_words_buffer s)
     \<and> (handle_for_send conn1 s = None \<or> \<not> send_ok \<longrightarrow>
           out = Returned \<and> sent_requests es = [] \<and> websocket s' = conn2
           \<and> es = before_send
                  @ [LogException (if handle_for_send conn1 s = None then AttributeError
                                   else SendError)]
                  @ map CancelTask (tasks_for_send conn1 s)
                  @ (case handle_for_send conn1 s of
                       None \<Rightarrow> [StopAllMetrics]
                     | Some w \<Rightarrow> if close_ok then [WsClose w, StopAllMetrics]
                                else [WsClose w, LogException CloseError])
                  @ connect_attempt cfg conn2
           \<and> (handle_for_send conn1 s = None \<or> close_ok \<longrightarrow>
                 s' = (case conn2 of
                         None \<Rightarrow> init
                       | Some w \<Rightarrow> init\<lparr> websocket := Some w, receive_task := Some ReceiveTask,
                                         context_appending_task := Some ContextAppendingTask \<rparr>))
           \<and> (\<exists>s3 pre. websocket s3 = handle_for_send conn1 s
                 \<and> es = pre @ snd (disconnect close_ok s3)
                          @ snd (connect cfg conn2 (fst (disconnect close_ok s3)))
                 \<and> s' = fst (connect cfg conn2 (fst (disconnect close_ok s3))))))"
proof -
  let ?r = "run_tts cfg text uuid conn1 send_ok close_ok conn2 s"
  let ?before = "(if websocket s = None then connect_attempt cfg conn1 else [])
                      @ (if waiting_for_ttfb s then [] else [StartTtfbMetrics])"
  have nb: "sent_requests ?before = []"
    by (cases conn1) (simp_all add: connect_attempt_def sent_requests_append)
  have sent: "snd (snd ?r) = Yielded
           \<and> (\<exists>pre q. fst (snd ?r) = pre @ [WsSend w q] \<and> pre = ?before
                 \<and> sent_requests pre = []
                 \<and> req_transcript q = text @ '' '' \<and> req_continue q
                 \<and> req_context_id q = open_context uuid s \<and> req_add_timestamps q
                 \<and> req_model_id q = model_id cfg \<and> req_voice_id q = voice_id cfg
                 \<and> req_output_format q = output_format cfg \<and> req_language q = language cfg)
           \<and> context_id (fst ?r) = Some (open_context uuid s) \<and> websocket (fst ?r) = Some w
           \<and> waiting_for_ttfb (fst ?r)
           \<and> context_id_start_timestamp (fst ?r) = context_id_start_timestamp s
           \<and> timestamped_words_buffer (fst ?r) = timestamped_words_buffer s"
    if h: "handle_for_send conn1 s = Some w" "send_ok" for w
  proof -
    note r = run_tts_sent_exact [OF h, of cfg "text" uuid close_ok conn2]
    let ?q = "build_request cfg text (open_context uuid s)"
    have q: "req_transcript ?q = text @ '' ''" "req_continue ?q"
      "req_context_id ?q = open_context uuid s" "req_add_timestamps ?q"
      "req_model_id ?q = model_id cfg" "req_voice_id ?q = voice_id cfg"
      "req_output_format ?q = output_format cfg" "req_language ?q = language cfg"
      by (simp_all add: build_request_def)
    have e: "fst (snd ?r) = ?before @ [WsSend w ?q]" by (simp add: r)
    have st: "context_id (fst ?r) = Some (open_context uuid s)"
      "waiting_for_ttfb (fst ?r)" "snd (snd ?r) = Yielded"
      by (simp_all add: r)
    have ws: "websocket (fst ?r) = Some w"
      unfolding r using h(1)
      by (cases "websocket s") (simp_all add: handle_for_send_def connect_websocket)
    have k1: "context_id_start_timestamp (fst ?r) = context_id_start_timestamp s"
      unfolding r by (cases conn1) simp_all
    have k2: "timestamped_words_buffer (fst ?r) = timestamped_words_buffer s"
      unfolding r by (cases conn1) simp_all
    note keep = k1 k2
    show ?thesis using e nb q st ws keep by blast
  qed
  have failed: "snd (snd ?r) = Returned \<and> sent_requests (fst (snd ?r)) = []
           \<and> websocket (fst ?r) = conn2
           \<and> fst (snd ?r) = ?before
                  @ [LogException (if handle_for_send conn1 s = None then AttributeError
                                   else SendError)]
                  @ map CancelTask (tasks_for_send conn1 s)
                  @ (case handle_for_send conn1 s of
                       None \<Rightarrow> [StopAllMetrics]
                     | Some w \<Rightarrow> if close_ok then [WsClose w, StopAllMetrics]
                                else [WsClose w, LogException CloseError])
                  @ connect_attempt cfg conn2
           \<and> (handle_for_send conn1 s = None \<or> close_ok \<longrightarrow>
                 fst ?r = (case conn2 of
                         None \<Rightarrow> init
                       | Some w \<Rightarrow> init\<lparr> websocket := Some w, receive_task := Some ReceiveTask,
                                         context_appending_task := Some ContextAppendingTask \<rparr>))
           \<and> (\<exists>s3 pre. websocket s3 = handle_for_send conn1 s
                 \<and> fst (snd ?r) = pre @ snd (disconnect close_ok s3)
                          @ snd (connect cfg conn2 (fst (disconnect close_ok s3)))
                 \<and> fst ?r = fst (connect cfg conn2 (fst (disconnect close_ok s3))))"
    if h: "handle_for_send conn1 s = None \<or> \<not> send_ok"
  proof -
    obtain s3 pre where r: "?r = (fst (connect cfg conn2 (fst (disconnect close_ok s3))),
              pre @ snd (disconnect close_ok s3)
                  @ snd (connect cfg conn2 (fst (disconnect close_ok s3))),
              Returned)"
      and p: "sent_requests pre = []" and w: "websocket s3 = handle_for_send conn1 s"
      using run_tts_failed [OF h, of cfg "text" uuid close_ok conn2] by blast
    have n: "sent_requests (fst (snd ?r)) = []"
      by (simp add: r p sent_requests_append disconnect_no_send connect_effects_no_send)
    have ws: "websocket (fst ?r) = conn2" by (simp add: r connect_websocket)
    have ex: "\<exists>s3 pre. websocket s3 = handle_for_send conn1 s
                 \<and> fst (snd ?r) = pre @ snd (disconnect close_ok s3)
                          @ snd (connect cfg conn2 (fst (disconnect close_ok s3)))
                 \<and> fst ?r = fst (connect cfg conn2 (fst (disconnect close_ok s3)))"
      using r w by auto
    have es: "fst (snd ?r) = ?before
                  @ [LogException (if handle_for_send conn1 s = None then AttributeError
                                   else SendError)]
                  @ map CancelTask (tasks_for_send conn1 s)
                  @ (case handle_for_send conn1 s of
                       None \<Rightarrow> [StopAllMetrics]
                     | Some w \<Rightarrow> if close_ok then [WsClose w, StopAllMetrics]
                                else [WsClose w, LogException CloseError])
                  @ connect_attempt cfg conn2"
      using run_tts_failed_exact(1) [OF h, of cfg "text" uuid close_ok conn2]
      by (simp only: append_assoc)
    show ?thesis
      using run_tts_failed_exact(3) [OF h, of cfg "text" uuid close_ok conn2] n ws es ex
        run_tts_failed_exact(2) [OF h, of close_ok cfg "text" uuid conn2]
      by blast
  qed
  have out: "snd (snd ?r) = Yielded \<or> snd (snd ?r) = Returned"
  proof (cases "handle_for_send conn1 s = None \<or> \<not> send_ok")
    case True
    then show ?thesis using failed by simp
  next
    case False
    then obtain w where "handle_for_send conn1 s = Some w" send_ok by auto
    then show ?thesis using sent by simp
  qed
  have ctx: "context_id s = None \<longrightarrow> open_context uuid s = uuid"
    "context_id s = Some [] \<longrightarrow> open_context uuid s = uuid"
    "\<forall>c. context_id s = Some c \<and> c \<noteq> [] \<longrightarrow> open_context uuid s = c"
    "\<forall>used. uuid \<notin> used \<and> (context_id s = None \<or> context_id s = Some [])
           \<longrightarrow> open_context uuid s \<notin> used"
    by (auto simp: open_context_def)
  show ?thesis
    unfolding Let_def
    using out run_tts_connects_first [of s cfg "text" uuid conn1 send_ok close_ok conn2]
      run_tts_starts_ttfb [of s cfg "text" uuid conn1 send_ok close_ok conn2] ctx sent failed
    by blast
qed

theorem run_tts_contract_witness:
  "run_tts default_config ''Hello.'' ''c1'' None True True None example_connected
     = (example_started,
        [StartTtfbMetrics,
         WsSend 1 (build_request default_config ''Hello.'' ''c1'')], Yielded)
   \<and> req_transcript (build_request default_config ''Hello.'' ''c1'') = ''Hello. ''
   \<and> run_tts default_config ''Hello.'' ''c1'' (Some 1) False True (Some 2) init
     = (init\<lparr> websocket := Some 2, receive_task := Some ReceiveTask,
              context_appending_task := Some ContextAppendingTask \<rparr>,
        [WsConnect (connect_url default_config), CreateTask ReceiveTask,
         CreateTask ContextAppendingTask, StartTtfbMetrics, LogException SendError,
         CancelTask ContextAppendingTask, CancelTask ReceiveTask, WsClose 1, StopAllMetrics,
         WsConnect (connect_url default_config), CreateTask ReceiveTask,
         CreateTask ContextAppendingTask],
        Returned)"
proof -
  have h1: "handle_for_send None example_connected = Some 1 \<and> True"
    by (simp add: handle_for_send_def example_connected_eq)
  have h2: "handle_for_send (Some 1) init = None \<or> \<not> False" by simp
  have h3: "handle_for_send (Some 1) init = None \<or> True" by simp
  have a: "run_tts default_config ''Hello.'' ''c1'' None True True None example_connected
     = (example_started,
        [StartTtfbMetrics,
         WsSend 1 (build_request default_config ''Hello.'' ''c1'')], Yielded)"
    by (simp add: example_started_def)
      (simp add: run_tts_def example_connected_eq init_def open_context_def)
  have hs: "handle_for_send (Some 1) init = Some 1" "websocket init = None"
    "\<not> waiting_for_ttfb init"
    by (simp_all add: handle_for_send_def init_def)
  have b: "run_tts default_config ''Hello.'' ''c1'' (Some 1) False True (Some 2) init
     = (init\<lparr> websocket := Some 2, receive_task := Some ReceiveTask,
              context_appending_task := Some ContextAppendingTask \<rparr>,
        [WsConnect (connect_url default_config), CreateTask ReceiveTask,
         CreateTask ContextAppendingTask, StartTtfbMetrics, LogException SendError,
         CancelTask ContextAppendingTask, CancelTask ReceiveTask, WsClose 1, StopAllMetrics,
         WsConnect (connect_url default_config), CreateTask ReceiveTask,
         CreateTask ContextAppendingTask],
        Returned)"
    using run_tts_contract [of default_config "''Hello.''" "''c1''" "Some 1" False True
        "Some 2" init] h2 h3 hs
    by (simp add: Let_def connect_attempt_def tasks_for_send_def prod_eq_iff)
  show ?thesis
    using h1 a b
      run_tts_contract [of default_config "''Hello.''" "''c1''" None True True None
        example_connected]
    by (simp add: Let_def build_request_def)
qed

section \<open>The start timestamp of a context\<close>

lemma example_first_done_eq:
  "example_first_done = init\<lparr> websocket := Some 1, receive_task := Some ReceiveTask,
      context_appending_task := Some ContextAppendingTask,
      context_id_start_timestamp := Some 100 \<rparr>"
  by (simp add: example_first_done_def example_started_eq init_def receive_message_def
      on_chunk_def chunk_message_def done_message_def default_config_def sentinel_def
      context_appending_tick_def entry_frame_def)

lemma example_second_started_eq:
  "example_second_started = init\<lparr> websocket := Some 1, receive_task := Some ReceiveTask,
      context_appending_task := Some ContextAppendingTask,
      context_id_start_timestamp := Some 100, waiting_for_ttfb := True,
      context_id := Some ''c2'' \<rparr>"
  by (simp add: example_second_started_def example_first_done_eq init_def run_tts_def
      open_context_def)

text \<open>
  A chunk of the tracked context records the clock reading only when no start timestamp
  is recorded; \<^verbatim>\<open>done\<close> leaves the timestamp as it is.
\<close>

lemma on_chunk_timestamp:
  "context_id_start_timestamp (fst (on_chunk b64 cfg now msg s))
   = (if no_timestamp (context_id_start_timestamp s) then Some now
      else context_id_start_timestamp s)"
  by (cases "waiting_for_ttfb s")
    (simp_all add: on_chunk_def Let_def split: sum.splits)

lemma chunk_message_handled:
  "context_id s = Some c \<Longrightarrow>
   receive_message b64 cfg now (Json (chunk_message c d)) s
     = on_chunk b64 cfg now (chunk_message c d) s"
  by (simp add: receive_message_def chunk_message_def)

lemma first_chunk_sets_timestamp:
  "context_id s = Some c \<Longrightarrow> context_id_start_timestamp s = None \<Longrightarrow>
   context_id_start_timestamp (fst (receive_message b64 cfg now (Json (chunk_message c d)) s))
     = Some now"
  by (simp add: chunk_message_handled on_chunk_timestamp)

lemma later_chunk_keeps_timestamp:
  "context_id s = Some c \<Longrightarrow> context_id_start_timestamp s = Some t \<Longrightarrow> t \<noteq> 0 \<Longrightarrow>
   context_id_start_timestamp (fst (receive_message b64 cfg now (Json (chunk_message c d)) s))
     = Some t"
  by (simp add: chunk_message_handled on_chunk_timestamp)

lemma done_keeps_timestamp:
  "context_id s = Some c \<Longrightarrow>
   context_id_start_timestamp (fst (receive_message b64 cfg now (Json (done_message c)) s))
     = context_id_start_timestamp s"
  by (simp add: done_clears_context)

text \<open>
  Claim C2 at the input where the code departs from it. The first context played to
  its end (first chunk at clock reading 100, \<^verbatim>\<open>done\<close>, sentinel replayed); \<^verbatim>\<open>done\<close>
  keeps the start timestamp and nothing clears it afterwards. A second context is
  opened and its first chunk arrives at 200: the start timestamp stays 100. The word
  of the second context with end offset 0.5 is then pushed by the round at 200.1, a
  tenth of a second after that context's first chunk.
\<close>

theorem second_context_keeps_first_timestamp:
  "context_id_start_timestamp
     (fst (receive_message Some default_config 200 (Json (chunk_message ''c2'' ''BBBB''))
            example_second_started)) = Some 100
   \<and> pushed_frames (fst (snd (context_appending_tick (2001 / 10)
        (fst (receive_task_handler Some default_config
               [(200, Json (chunk_message ''c2'' ''BBBB'')),
                (200, Json (timestamps_message ''c2'' [(''Again.'', 1 / 2)]))]
               example_second_started)))))
     = [TextFrame (JStr ''Again.'')]"
  by (simp add: example_second_started_eq init_def receive_message_def
      on_chunk_def chunk_message_def timestamps_message_def default_config_def
      word_timestamps_def context_appending_tick_def entry_frame_def)

section \<open>Replay of the timeline\<close>

text \<open>
  A buffer whose offsets are all numbers: a round pops exactly the longest prefix whose
  offsets the elapsed time has reached, and raises nothing.
\<close>

lemma pop_due_numeric:
  "pop_due e (map numeric_entry xs)
   = (map numeric_entry (dropWhile (\<lambda>p. snd p \<le> e) xs),
      map (\<lambda>p. PushFrame (entry_frame (numeric_entry p))) (takeWhile (\<lambda>p. snd p \<le> e) xs),
      None)"
  by (induction xs) (simp_all add: numeric_entry_def)

lemma tick_numeric:
  assumes "context_id_start_timestamp s = Some t0" and "t0 \<noteq> 0"
    and "timestamped_words_buffer s = map numeric_entry xs"
  shows "context_appending_tick now s
   = (s\<lparr> timestamped_words_buffer :=
          map numeric_entry (dropWhile (\<lambda>p. snd p \<le> now - t0) xs) \<rparr>,
      map (\<lambda>p. PushFrame (entry_frame (numeric_entry p)))
        (takeWhile (\<lambda>p. snd p \<le> now - t0) xs),
      None)"
  using assms by (simp add: context_appending_tick_def pop_due_numeric)

lemma ticks_numeric:
  assumes "context_id_start_timestamp s = Some t0" and "t0 \<noteq> 0"
    and "timestamped_words_buffer s = map numeric_entry xs"
  shows "\<exists>n. context_appending_task_handler nows s
   = (s\<lparr> timestamped_words_buffer := map numeric_entry (drop n xs) \<rparr>,
      map (\<lambda>p. PushFrame (entry_frame (numeric_entry p))) (take n xs))"
  using assms
proof (induction nows arbitrary: s xs)
  case Nil
  have "s\<lparr> timestamped_words_buffer := map numeric_entry (drop 0 xs) \<rparr> = s"
    using Nil(3) by simp
  then have "context_appending_task_handler [] s
     = (s\<lparr> timestamped_words_buffer := map numeric_entry (drop 0 xs) \<rparr>,
        map (\<lambda>p. PushFrame (entry_frame (numeric_entry p))) (take 0 xs))"
    by simp
  then show ?case by blast
next
  case (Cons now nows)
  let ?P = "\<lambda>p. snd p \<le> now - t0"
  let ?k = "length (takeWhile ?P xs)"
  let ?s1 = "s\<lparr> timestamped_words_buffer := map numeric_entry (drop ?k xs) \<rparr>"
  have t: "context_appending_tick now s
     = (?s1, map (\<lambda>p. PushFrame (entry_frame (numeric_entry p))) (take ?k xs), None)"
    using tick_numeric [OF Cons.prems, of now] takeWhile_eq_take [of ?P xs]
      dropWhile_eq_drop [of ?P xs] by simp
  have "context_id_start_timestamp ?s1 = Some t0"
    "timestamped_words_buffer ?s1 = map numeric_entry (drop ?k xs)"
    using Cons.prems by simp_all
  from Cons.IH [OF this(1) Cons.prems(2) this(2)]
  obtain m where m: "context_appending_task_handler nows ?s1
     = (?s1\<lparr> timestamped_words_buffer := map numeric_entry (drop m (drop ?k xs)) \<rparr>,
        map (\<lambda>p. PushFrame (entry_frame (numeric_entry p))) (take m (drop ?k xs)))"
    by blast
  have "take ?k xs @ take m (drop ?k xs) = take (?k + m) xs"
    by (simp add: take_add)
  then have e: "map (\<lambda>p. PushFrame (entry_frame (numeric_entry p))) (take ?k xs)
      @ map (\<lambda>p. PushFrame (entry_frame (numeric_entry p))) (take m (drop ?k xs))
      = map (\<lambda>p. PushFrame (entry_frame (numeric_entry p))) (take (?k + m) xs)"
    by (metis map_append)
  have d: "drop m (drop ?k xs) = drop (?k + m) xs" by (simp add: add.commute)
  have "context_appending_task_handler (now # nows) s
     = (s\<lparr> timestamped_words_buffer := map numeric_entry (drop (?k + m) xs) \<rparr>,
        map (\<lambda>p. PushFrame (entry_frame (numeric_entry p))) (take (?k + m) xs))"
    using t m e d by simp
  then show ?case by blast
qed

lemma entry_frame_word:
  "\<not> sentinel_like p \<Longrightarrow> entry_frame (word_entry p) = TextFrame (JStr (fst p))"
  by (simp add: entry_frame_def word_entry_def sentinel_like_def)

lemma entry_frame_sentinel: "entry_frame sentinel = LLMFullResponseEndFrame"
  by (simp add: entry_frame_def sentinel_def)

lemma pop_due_sentinel:
  "pop_due e [sentinel]
   = (if 0 \<le> e then ([], [PushFrame LLMFullResponseEndFrame], None) else ([sentinel], [], None))"
  using entry_frame_sentinel by (simp add: sentinel_def)

lemma pop_due_words:
  assumes "\<forall>p\<in>set ws. \<not> sentinel_like p"
  shows "pop_due e (map word_entry ws @ rest)
   = (if \<forall>p\<in>set ws. snd p \<le> e
      then (fst (pop_due e rest),
            map (\<lambda>p. PushFrame (TextFrame (JStr (fst p)))) ws @ fst (snd (pop_due e rest)),
            snd (snd (pop_due e rest)))
      else (map word_entry (dropWhile (\<lambda>p. snd p \<le> e) ws) @ rest,
            map (\<lambda>p. PushFrame (TextFrame (JStr (fst p)))) (takeWhile (\<lambda>p. snd p \<le> e) ws),
            None))"
  using assms
proof (induction ws)
  case Nil
  then show ?case by simp
next
  case (Cons p ws)
  have f: "entry_frame (word_entry p) = TextFrame (JStr (fst p))"
    using Cons.prems by (simp add: entry_frame_word)
  have o: "offset_le (snd (word_entry p)) e = Inr (snd p \<le> e)"
    by (simp add: word_entry_def)
  have ih: "pop_due e (map word_entry ws @ rest)
   = (if \<forall>p\<in>set ws. snd p \<le> e
      then (fst (pop_due e rest),
            map (\<lambda>p. PushFrame (TextFrame (JStr (fst p)))) ws @ fst (snd (pop_due e rest)),
            snd (snd (pop_due e rest)))
      else (map word_entry (dropWhile (\<lambda>p. snd p \<le> e) ws) @ rest,
            map (\<lambda>p. PushFrame (TextFrame (JStr (fst p)))) (takeWhile (\<lambda>p. snd p \<le> e) ws),
            None))"
    using Cons by simp
  show ?case
  proof (cases "snd p \<le> e")
    case True
    then show ?thesis using f o ih by simp
  next
    case False
    then show ?thesis using o by simp
  qed
qed

lemma frames_of_timeline:
  assumes "\<forall>p\<in>set ws. \<not> sentinel_like p"
  shows "map (\<lambda>p. entry_frame (numeric_entry p))
           (map (\<lambda>p. (JStr (fst p), snd p)) ws @ [(JStr ''LLMFullResponseEndFrame'', 0)])
         = map (\<lambda>p. TextFrame (JStr (fst p))) ws @ [LLMFullResponseEndFrame]"
  using assms
  by (induction ws)
    (simp_all add: entry_frame_def numeric_entry_def sentinel_like_def)

lemma timeline_numeric:
  "map word_entry ws @ [sentinel]
   = map numeric_entry
       (map (\<lambda>p. (JStr (fst p), snd p)) ws @ [(JStr ''LLMFullResponseEndFrame'', 0)])"
  by (simp add: word_entry_def numeric_entry_def sentinel_def)

lemma word_timestamps_of_message:
  "word_timestamps (timestamps_message c ws) = Inr (map word_entry ws)"
  by (simp add: word_timestamps_def timestamps_message_def zip_map_map word_entry_def
      zip_same_conv_map)

lemma timestamps_message_buffered:
  "context_id s = Some c \<Longrightarrow>
   receive_message b64 cfg now (Json (timestamps_message c ws)) s
     = (s\<lparr> timestamped_words_buffer := timestamped_words_buffer s @ map word_entry ws \<rparr>,
        [], None)"
  using word_timestamps_of_message [of c ws]
  by (simp add: receive_message_def) (simp add: timestamps_message_def)

lemma example_buffered_eq:
  "example_buffered = init\<lparr> websocket := Some 1, receive_task := Some ReceiveTask,
      context_appending_task := Some ContextAppendingTask,
      context_id_start_timestamp := Some 100,
      timestamped_words_buffer :=
        map word_entry [(''hello'', 1 / 4), (''world'', 1 / 2)] @ [sentinel] \<rparr>"
  by (simp add: example_buffered_def example_started_eq init_def receive_message_def
      on_chunk_def chunk_message_def done_message_def timestamps_message_def
      word_timestamps_def default_config_def word_entry_def)

lemma ticks_buffer_numeric_drained:
  assumes "context_id_start_timestamp s = Some t0" and "t0 \<noteq> 0"
    and "timestamped_words_buffer s = map numeric_entry xs"
    and "now \<in> set nows" and "\<forall>p\<in>set xs. snd p \<le> now - t0"
  shows "timestamped_words_buffer (fst (context_appending_task_handler nows s)) = []"
  using assms
proof (induction nows arbitrary: s xs)
  case Nil
  then show ?case by simp
next
  case (Cons a nows)
  let ?P = "\<lambda>p. snd p \<le> a - t0"
  let ?s1 = "s\<lparr> timestamped_words_buffer := map numeric_entry (dropWhile ?P xs) \<rparr>"
  have t: "context_appending_tick a s
     = (?s1, map (\<lambda>p. PushFrame (entry_frame (numeric_entry p))) (takeWhile ?P xs), None)"
    using tick_numeric [OF Cons.prems(1,2,3), of a] by simp
  have f: "fst (context_appending_task_handler (a # nows) s)
           = fst (context_appending_task_handler nows ?s1)"
    by (simp add: t split_beta)
  have s1: "context_id_start_timestamp ?s1 = Some t0"
    "timestamped_words_buffer ?s1 = map numeric_entry (dropWhile ?P xs)"
    using Cons.prems(1) by simp_all
  have sub: "\<forall>p\<in>set (dropWhile ?P xs). snd p \<le> now - t0"
    using Cons.prems(5) by (auto dest: set_dropWhileD)
  show ?case
  proof (cases "now = a")
    case True
    then have "dropWhile ?P xs = []" using Cons.prems(5) by simp
    then have b: "timestamped_words_buffer ?s1 = map numeric_entry []" by simp
    obtain n where "context_appending_task_handler nows ?s1
       = (?s1\<lparr> timestamped_words_buffer := map numeric_entry (drop n []) \<rparr>,
          map (\<lambda>p. PushFrame (entry_frame (numeric_entry p))) (take n []))"
      using ticks_numeric [OF s1(1) Cons.prems(2) b, of nows] by blast
    then show ?thesis using f by simp
  next
    case False
    then have "now \<in> set nows" using Cons.prems(4) by simp
    from Cons.IH [OF s1(1) Cons.prems(2) s1(2) this sub] show ?thesis using f by simp
  qed
qed

lemma example_marker_word_eq:
  "example_marker_word = init\<lparr> websocket := Some 1, receive_task := Some ReceiveTask,
      context_appending_task := Some ContextAppendingTask,
      context_id_start_timestamp := Some 100,
      timestamped_words_buffer :=
        map word_entry [(''LLMFullResponseEndFrame'', 0), (''x'', 1 / 4)] @ [sentinel] \<rparr>"
  by (simp add: example_marker_word_def example_started_eq init_def receive_message_def
      on_chunk_def chunk_message_def done_message_def timestamps_message_def
      word_timestamps_def default_config_def word_entry_def)

text \<open>
  Every frame the rounds push comes from a buffered entry whose offset the elapsed time
  of one of the rounds has reached.
\<close>

lemma ticks_numeric_due:
  assumes "context_id_start_timestamp s = Some t0" and "t0 \<noteq> 0"
    and "timestamped_words_buffer s = map numeric_entry xs"
  shows "\<exists>ps. snd (context_appending_task_handler nows s)
              = map (\<lambda>p. PushFrame (entry_frame (numeric_entry p))) ps
            \<and> (\<forall>p\<in>set ps. p \<in> set xs \<and> (\<exists>now\<in>set nows. snd p \<le> now - t0))"
  using assms
proof (induction nows arbitrary: s xs)
  case Nil
  have "snd (context_appending_task_handler [] s)
          = map (\<lambda>p. PushFrame (entry_frame (numeric_entry p))) []
        \<and> (\<forall>p\<in>set []. p \<in> set xs \<and> (\<exists>now\<in>set []. snd p \<le> now - t0))"
    by simp
  then show ?case by blast
next
  case (Cons a nows)
  let ?P = "\<lambda>p. snd p \<le> a - t0"
  let ?f = "\<lambda>p. PushFrame (entry_frame (numeric_entry p))"
  let ?s1 = "s\<lparr> timestamped_words_buffer := map numeric_entry (dropWhile ?P xs) \<rparr>"
  have t: "context_appending_tick a s = (?s1, map ?f (takeWhile ?P xs), None)"
    using tick_numeric [OF Cons.prems, of a] by simp
  have e: "snd (context_appending_task_handler (a # nows) s)
           = map ?f (takeWhile ?P xs) @ snd (context_appending_task_handler nows ?s1)"
    by (simp add: t split_beta)
  have s1: "context_id_start_timestamp ?s1 = Some t0"
    "timestamped_words_buffer ?s1 = map numeric_entry (dropWhile ?P xs)"
    using Cons.prems(1) by simp_all
  from Cons.IH [OF s1(1) Cons.prems(2) s1(2)]
  obtain ps where ps: "snd (context_appending_task_handler nows ?s1) = map ?f ps"
    and due: "\<forall>p\<in>set ps. p \<in> set (dropWhile ?P xs) \<and> (\<exists>now\<in>set nows. snd p \<le> now - t0)"
    by blast
  have eq: "snd (context_appending_task_handler (a # nows) s) = map ?f (takeWhile ?P xs @ ps)"
    using e ps by simp
  have first: "\<forall>p\<in>set (takeWhile ?P xs). p \<in> set xs \<and> (\<exists>now\<in>set (a # nows). snd p \<le> now - t0)"
    by (auto dest: set_takeWhileD)
  have later: "\<forall>p\<in>set ps. p \<in> set xs \<and> (\<exists>now\<in>set (a # nows). snd p \<le> now - t0)"
    using due by (auto dest: set_dropWhileD)
  have "\<forall>p\<in>set (takeWhile ?P xs @ ps).
          p \<in> set xs \<and> (\<exists>now\<in>set (a # nows). snd p \<le> now - t0)"
    using first later by auto
  then show ?case using eq by blast
qed

text \<open>
  The rounds on a timeline of words followed by the sentinel: what they push is a
  prefix of the words' text frames followed by the marker, and all of it once one round
  is late enough for every word.
\<close>

lemma timeline_rounds_prefix:
  assumes "context_id_start_timestamp s = Some t0" and "t0 \<noteq> 0"
    and "timestamped_words_buffer s = map word_entry ws @ [sentinel]"
    and "\<forall>p\<in>set ws. \<not> sentinel_like p"
  shows "\<exists>n. context_appending_task_handler nows s
              = (s\<lparr> timestamped_words_buffer := drop n (map word_entry ws @ [sentinel]) \<rparr>,
                 map PushFrame
                   (take n (map (\<lambda>p. TextFrame (JStr (fst p))) ws @ [LLMFullResponseEndFrame])))"
proof -
  let ?frames = "map (\<lambda>p. TextFrame (JStr (fst p))) ws @ [LLMFullResponseEndFrame]"
  let ?xs = "map (\<lambda>p. (JStr (fst p), snd p)) ws @ [(JStr ''LLMFullResponseEndFrame'', 0::rat)]"
  have b: "timestamped_words_buffer s = map numeric_entry ?xs"
    using assms(3) timeline_numeric [of ws] by simp
  obtain m where m: "context_appending_task_handler nows s
     = (s\<lparr> timestamped_words_buffer := map numeric_entry (drop m ?xs) \<rparr>,
        map (\<lambda>p. PushFrame (entry_frame (numeric_entry p))) (take m ?xs))"
    using ticks_numeric [OF assms(1,2) b, of nows] by blast
  have d: "map numeric_entry (drop m ?xs) = drop m (map word_entry ws @ [sentinel])"
    using timeline_numeric [of ws] by (simp only: drop_map)
  have g: "map (\<lambda>p. PushFrame (entry_frame (numeric_entry p))) (take m ?xs)
        = map PushFrame (take m (map (\<lambda>p. entry_frame (numeric_entry p)) ?xs))"
    by (simp only: take_map map_map comp_def)
  have f: "map (\<lambda>p. PushFrame (entry_frame (numeric_entry p))) (take m ?xs)
        = map PushFrame (take m ?frames)"
    by (simp only: g frames_of_timeline [OF assms(4)])
  show ?thesis using m d f by auto
qed

lemma timeline_rounds_complete:
  assumes "context_id_start_timestamp s = Some t0" and "t0 \<noteq> 0"
    and "timestamped_words_buffer s = map word_entry ws @ [sentinel]"
    and "\<forall>p\<in>set ws. \<not> sentinel_like p"
    and "now \<in> set nows" and "t0 \<le> now" and "\<forall>p\<in>set ws. snd p \<le> now - t0"
  shows "context_appending_task_handler nows s
           = (s\<lparr> timestamped_words_buffer := [] \<rparr>,
              map PushFrame
                (map (\<lambda>p. TextFrame (JStr (fst p))) ws @ [LLMFullResponseEndFrame]))"
proof -
  let ?frames = "map (\<lambda>p. TextFrame (JStr (fst p))) ws @ [LLMFullResponseEndFrame]"
  let ?xs = "map (\<lambda>p. (JStr (fst p), snd p)) ws @ [(JStr ''LLMFullResponseEndFrame'', 0::rat)]"
  have b: "timestamped_words_buffer s = map numeric_entry ?xs"
    using assms(3) timeline_numeric [of ws] by simp
  obtain n where n: "context_appending_task_handler nows s
       = (s\<lparr> timestamped_words_buffer := drop n (map word_entry ws @ [sentinel]) \<rparr>,
          map PushFrame (take n ?frames))"
    using timeline_rounds_prefix [OF assms(1,2,3,4), of nows] by blast
  have all: "\<forall>p\<in>set ?xs. snd p \<le> now - t0" using assms(6,7) by auto
  have "timestamped_words_buffer (fst (context_appending_task_handler nows s)) = []"
    using ticks_buffer_numeric_drained [OF assms(1,2) b assms(5) all] .
  then have e: "drop n (map word_entry ws @ [sentinel]) = []" by (simp add: n)
  then have "length (map word_entry ws @ [sentinel]) \<le> n" by (simp only: drop_eq_Nil)
  then have "length ?frames \<le> n" by simp
  then have "take n ?frames = ?frames" by (rule take_all)
  then show ?thesis using n e by simp
qed

lemma timeline_rounds_due:
  assumes "context_id_start_timestamp s = Some t0" and "t0 \<noteq> 0"
    and "timestamped_words_buffer s = map word_entry ws @ [sentinel]"
    and "\<forall>p\<in>set ws. \<not> sentinel_like p"
    and "PushFrame (TextFrame (JStr w)) \<in> set (snd (context_appending_task_handler nows s))"
  shows "\<exists>t now. (w, t) \<in> set ws \<and> now \<in> set nows \<and> t \<le> now - t0"
proof -
  let ?xs = "map (\<lambda>p. (JStr (fst p), snd p)) ws @ [(JStr ''LLMFullResponseEndFrame'', 0::rat)]"
  have b: "timestamped_words_buffer s = map numeric_entry ?xs"
    using assms(3) timeline_numeric [of ws] by simp
  obtain ps where ps: "snd (context_appending_task_handler nows s)
              = map (\<lambda>p. PushFrame (entry_frame (numeric_entry p))) ps"
    and due: "\<forall>p\<in>set ps. p \<in> set ?xs \<and> (\<exists>now\<in>set nows. snd p \<le> now - t0)"
    using ticks_numeric_due [OF assms(1,2) b, of nows] by blast
  obtain p where p: "p \<in> set ps" "entry_frame (numeric_entry p) = TextFrame (JStr w)"
    using assms(5) ps by auto
  then have in_xs: "p \<in> set ?xs" and late: "\<exists>now\<in>set nows. snd p \<le> now - t0"
    using due by auto
  have "p \<noteq> (JStr ''LLMFullResponseEndFrame'', 0)"
    using p(2) by (auto simp: entry_frame_def numeric_entry_def)
  then obtain q where q: "q \<in> set ws" "p = (JStr (fst q), snd q)"
    using in_xs by auto
  have "entry_frame (numeric_entry p) = TextFrame (JStr (fst q))"
    using q assms(4) entry_frame_word [of q] by (simp add: word_entry_def numeric_entry_def)
  then have "fst q = w" using p(2) by simp
  then have "(w, snd q) \<in> set ws" using q(1) by auto
  moreover obtain now where "now \<in> set nows" "snd q \<le> now - t0"
    using late q(2) by auto
  ultimately show ?thesis by blast
qed

text \<open>
  Claim C1, as stated, fails on two inputs. When the server's first word is the text
  \<open>''LLMFullResponseEndFrame''\<close> with end offset 0, the scheduler takes its entry for the
  sentinel: the round at 100.25 pushes a marker in its place, then the text frame of the
  next word, then the marker of the sentinel proper; no text frame is pushed for the
  first word. And when the sentinel is at the front of the buffer (a \<^verbatim>\<open>done\<close> right
  after the first chunk, which came at 100) and the clock reads 99, one second behind
  the start timestamp, the round pushes nothing and the sentinel stays.
\<close>

theorem marker_word_replayed_as_marker:
  "context_appending_tick (401 / 4) example_marker_word
     = (example_marker_word\<lparr> timestamped_words_buffer := [] \<rparr>,
        [PushFrame LLMFullResponseEndFrame, PushFrame (TextFrame (JStr ''x'')),
         PushFrame LLMFullResponseEndFrame], None)
   \<and> timestamped_words_buffer
        (fst (receive_task_handler Some default_config
               [(100, Json (chunk_message ''c1'' ''AAAA'')), (100, Json (done_message ''c1''))]
               example_started)) = [sentinel]
   \<and> context_appending_tick 99
        (fst (receive_task_handler Some default_config
               [(100, Json (chunk_message ''c1'' ''AAAA'')), (100, Json (done_message ''c1''))]
               example_started))
     = (fst (receive_task_handler Some default_config
               [(100, Json (chunk_message ''c1'' ''AAAA'')), (100, Json (done_message ''c1''))]
               example_started), [], None)"
  by (simp add: example_marker_word_eq example_started_eq init_def context_appending_tick_def
      word_entry_def sentinel_def entry_frame_def receive_message_def on_chunk_def
      chunk_message_def done_message_def default_config_def)

text \<open>
  Claim C1, amended. Let a start timestamp other than zero be recorded and the buffer
  hold word entries, none of them the pair of the text \<open>''LLMFullResponseEndFrame''\<close> and
  the offset 0, followed by the completion sentinel. One scheduler round pushes the text
  frames of the longest prefix of the words whose offsets the elapsed time \<open>now - t0\<close>
  has reached, in buffer order, and leaves the rest; when every word is due it pushes
  them all and, if the clock does not read less than the start timestamp, the marker
  after them in the same round (otherwise the sentinel alone stays). Over any rounds:
  every text frame pushed is that of a buffered word whose offset the elapsed time of
  one of the rounds has reached; what is pushed is a prefix of the words' text frames,
  in the order the entries were appended, followed by the marker, and the buffer is
  what remains; and when one of the rounds reads a clock not behind the start timestamp
  at which every word is due, all the words' frames and then the marker are pushed and
  the buffer is empty. No round raises.
\<close>

theorem replay_in_order:
  assumes "context_id_start_timestamp s = Some t0" and "t0 \<noteq> 0"
    and "timestamped_words_buffer s = map word_entry ws @ [sentinel]"
    and "\<forall>p\<in>set ws. \<not> sentinel_like p"
  shows "context_appending_tick now s
         = (if \<forall>p\<in>set ws. snd p \<le> now - t0
            then (if t0 \<le> now
                  then (s\<lparr> timestamped_words_buffer := [] \<rparr>,
                        map (\<lambda>p. PushFrame (TextFrame (JStr (fst p)))) ws
                          @ [PushFrame LLMFullResponseEndFrame],
                        None)
                  else (s\<lparr> timestamped_words_buffer := [sentinel] \<rparr>,
                        map (\<lambda>p. PushFrame (TextFrame (JStr (fst p)))) ws, None))
            else (s\<lparr> timestamped_words_buffer :=
                       map word_entry (dropWhile (\<lambda>p. snd p \<le> now - t0) ws) @ [sentinel] \<rparr>,
                  map (\<lambda>p. PushFrame (TextFrame (JStr (fst p))))
                    (takeWhile (\<lambda>p. snd p \<le> now - t0) ws),
                  None))
       \<and> (\<forall>w. PushFrame (TextFrame (JStr w)) \<in> set (snd (context_appending_task_handler nows s))
              \<longrightarrow> (\<exists>t now'. (w, t) \<in> set ws \<and> now' \<in> set nows \<and> t \<le> now' - t0))
       \<and> (\<exists>n. context_appending_task_handler nows s
              = (s\<lparr> timestamped_words_buffer := drop n (map word_entry ws @ [sentinel]) \<rparr>,
                 map PushFrame
                   (take n (map (\<lambda>p. TextFrame (JStr (fst p))) ws @ [LLMFullResponseEndFrame]))))
       \<and> ((\<exists>now'\<in>set nows. t0 \<le> now' \<and> (\<forall>p\<in>set ws. snd p \<le> now' - t0)) \<longrightarrow>
            context_appending_task_handler nows s
              = (s\<lparr> timestamped_words_buffer := [] \<rparr>,
                 map PushFrame
                   (map (\<lambda>p. TextFrame (JStr (fst p))) ws @ [LLMFullResponseEndFrame])))"
proof -
  let ?e = "now - t0"
  have e: "(0 \<le> ?e) = (t0 \<le> now)" by simp
  have tick: "context_appending_tick now s
         = (if \<forall>p\<in>set ws. snd p \<le> ?e
            then (if t0 \<le> now
                  then (s\<lparr> timestamped_words_buffer := [] \<rparr>,
                        map (\<lambda>p. PushFrame (TextFrame (JStr (fst p)))) ws
                          @ [PushFrame LLMFullResponseEndFrame],
                        None)
                  else (s\<lparr> timestamped_words_buffer := [sentinel] \<rparr>,
                        map (\<lambda>p. PushFrame (TextFrame (JStr (fst p)))) ws, None))
            else (s\<lparr> timestamped_words_buffer :=
                       map word_entry (dropWhile (\<lambda>p. snd p \<le> ?e) ws) @ [sentinel] \<rparr>,
                  map (\<lambda>p. PushFrame (TextFrame (JStr (fst p))))
                    (takeWhile (\<lambda>p. snd p \<le> ?e) ws),
                  None))"
    using assms(1,2,3) e pop_due_words [OF assms(4), of ?e "[sentinel]"] pop_due_sentinel [of ?e]
    by (simp add: context_appending_tick_def)
  have due: "\<forall>w. PushFrame (TextFrame (JStr w))
                  \<in> set (snd (context_appending_task_handler nows s))
              \<longrightarrow> (\<exists>t now'. (w, t) \<in> set ws \<and> now' \<in> set nows \<and> t \<le> now' - t0)"
    using timeline_rounds_due [OF assms(1,2,3,4)] by blast
  have complete: "(\<exists>now'\<in>set nows. t0 \<le> now' \<and> (\<forall>p\<in>set ws. snd p \<le> now' - t0)) \<longrightarrow>
            context_appending_task_handler nows s
              = (s\<lparr> timestamped_words_buffer := [] \<rparr>,
                 map PushFrame
                   (map (\<lambda>p. TextFrame (JStr (fst p))) ws @ [LLMFullResponseEndFrame]))"
    using timeline_rounds_complete [OF assms(1,2,3,4)] by blast
  show ?thesis
    using tick due timeline_rounds_prefix [OF assms(1,2,3,4), of nows] complete by blast
qed

theorem replay_in_order_witness:
  "context_appending_tick (401 / 4) example_buffered
     = (example_buffered\<lparr> timestamped_words_buffer :=
                            [word_entry (''world'', 1 / 2), sentinel] \<rparr>,
        [PushFrame (TextFrame (JStr ''hello''))], None)
   \<and> context_appending_task_handler [401 / 4, 201 / 2] example_buffered
     = (example_buffered\<lparr> timestamped_words_buffer := [] \<rparr>,
        [PushFrame (TextFrame (JStr ''hello'')), PushFrame (TextFrame (JStr ''world'')),
         PushFrame LLMFullResponseEndFrame])"
proof -
  let ?ws = "[(''hello'', 1 / 4), (''world'', 1 / 2)] :: (string \<times> rat) list"
  let ?nows = "[401 / 4, 201 / 2] :: rat list"
  have h1: "context_id_start_timestamp example_buffered = Some 100"
    and h2: "(100::rat) \<noteq> 0"
    and h3: "timestamped_words_buffer example_buffered = map word_entry ?ws @ [sentinel]"
    and h4: "\<forall>p\<in>set ?ws. \<not> sentinel_like p"
    by (simp_all add: example_buffered_eq sentinel_like_def)
  have "(201 / 2 :: rat) \<in> set ?nows"
    and "(100::rat) \<le> 201 / 2 \<and> (\<forall>p\<in>set ?ws. snd p \<le> 201 / 2 - 100)"
    by simp_all
  then have h5: "\<exists>now\<in>set ?nows. 100 \<le> now \<and> (\<forall>p\<in>set ?ws. snd p \<le> now - 100)"
    by (rule bexI [rotated])
  have a: "context_appending_tick (401 / 4) example_buffered
     = (example_buffered\<lparr> timestamped_words_buffer :=
                            [word_entry (''world'', 1 / 2), sentinel] \<rparr>,
        [PushFrame (TextFrame (JStr ''hello''))], None)"
    using replay_in_order [OF h1 h2 h3 h4, of "401 / 4" "[]", THEN conjunct1] by simp
  have b: "context_appending_task_handler ?nows example_buffered
     = (example_buffered\<lparr> timestamped_words_buffer := [] \<rparr>,
        [PushFrame (TextFrame (JStr ''hello'')), PushFrame (TextFrame (JStr ''world'')),
         PushFrame LLMFullResponseEndFrame])"
    using replay_in_order [OF h1 h2 h3 h4, of 0 ?nows, THEN conjunct2, THEN conjunct2,
        THEN conjunct2, rule_format, OF h5]
    by simp
  show ?thesis using a b by simp
qed

section \<open>End-of-response markers\<close>

lemma pushed_frames_map: "pushed_frames (map PushFrame fs) = fs"
  by (induction fs) simp_all

lemma count_take_le: "count_list (take n xs) x \<le> count_list xs x"
  by (induction xs arbitrary: n) (auto simp: take_Cons split: nat.splits intro: le_SucI)

lemma count_marker_timeline:
  "count_list (map (\<lambda>p. TextFrame (JStr (fst p))) ws @ [LLMFullResponseEndFrame])
     LLMFullResponseEndFrame = 1"
  by (induction ws) simp_all

lemma disconnect_pushes_nothing: "pushed_frames (snd (disconnect close_ok s)) = []"
proof -
  have "pushed_frames (map CancelTask ts) = []" for ts by (induction ts) simp_all
  then show ?thesis
    by (simp add: disconnect_unfolded pushed_frames_append split: option.splits)
qed

text \<open>
  Claim C9, as stated, fails. One response is started (one request is sent, under
  \<open>''c1''\<close>); its chunk and its \<^verbatim>\<open>done\<close> arrive, the scheduler replays the sentinel
  and pushes the marker; then an interruption arrives and the handler pushes a second
  marker, although no response is open any more.
\<close>

theorem interruption_after_completion_second_marker:
  "sent_requests (fst (snd (run_tts default_config ''Hello.'' ''c1'' None True True None
                              example_connected)))
     = [build_request default_config ''Hello.'' ''c1'']
   \<and> pushed_frames
       (snd (receive_task_handler Some default_config
               [(100, Json (chunk_message ''c1'' ''AAAA'')), (100, Json (done_message ''c1''))]
               example_started)
        @ snd (context_appending_task_handler [1001 / 10]
                 (fst (receive_task_handler Some default_config
                   [(100, Json (chunk_message ''c1'' ''AAAA'')),
                    (100, Json (done_message ''c1''))]
                   example_started)))
        @ snd (handle_interruption example_first_done))
     = [AudioRawFrame ''AAAA'' 16000 1, LLMFullResponseEndFrame, LLMFullResponseEndFrame]"
  by (simp add: example_connected_eq example_started_eq init_def run_tts_def open_context_def
      receive_message_def on_chunk_def chunk_message_def done_message_def default_config_def
      sentinel_def context_appending_tick_def entry_frame_def handle_interruption_def)

text \<open>
  Claim C9, amended. Let a start timestamp other than zero be recorded and the buffer
  hold word entries, none of them the pair of the text \<open>''LLMFullResponseEndFrame''\<close> and
  the offset 0, followed by the sentinel of a \<^verbatim>\<open>done\<close>. Then the scheduler rounds push
  the marker at most once; and when one of the rounds reads a clock not behind the
  start timestamp at which every buffered word is due, they push the words' text
  frames and then the marker, exactly once. In a state without a start timestamp the
  rounds push nothing and leave the state as it is. In any state, the interruption
  handler pushes exactly one frame, the marker, and empties the buffer; and
  \<^verbatim>\<open>disconnect\<close> pushes no frame and, when there is no handle or the close returns,
  leaves the buffer empty and no start timestamp.
\<close>

theorem markers_emitted:
  assumes "context_id_start_timestamp s = Some t0" and "t0 \<noteq> 0"
    and "timestamped_words_buffer s = map word_entry ws @ [sentinel]"
    and "\<forall>p\<in>set ws. \<not> sentinel_like p"
  shows "count_list (pushed_frames (snd (context_appending_task_handler nows s)))
           LLMFullResponseEndFrame \<le> 1
       \<and> ((\<exists>now\<in>set nows. t0 \<le> now \<and> (\<forall>p\<in>set ws. snd p \<le> now - t0)) \<longrightarrow>
            pushed_frames (snd (context_appending_task_handler nows s))
              = map (\<lambda>p. TextFrame (JStr (fst p))) ws @ [LLMFullResponseEndFrame]
            \<and> count_list (pushed_frames (snd (context_appending_task_handler nows s)))
                 LLMFullResponseEndFrame = 1)
       \<and> (context_id_start_timestamp s'' = None \<longrightarrow>
            context_appending_task_handler nows s'' = (s'', []))
       \<and> pushed_frames (snd (handle_interruption s')) = [LLMFullResponseEndFrame]
       \<and> timestamped_words_buffer (fst (handle_interruption s')) = []
       \<and> pushed_frames (snd (disconnect close_ok s')) = []
       \<and> (websocket s' = None \<or> close_ok \<longrightarrow>
            timestamped_words_buffer (fst (disconnect close_ok s')) = []
            \<and> context_id_start_timestamp (fst (disconnect close_ok s')) = None)"
proof -
  let ?frames = "map (\<lambda>p. TextFrame (JStr (fst p))) ws @ [LLMFullResponseEndFrame]"
  let ?out = "pushed_frames (snd (context_appending_task_handler nows s))"
  obtain n where n: "context_appending_task_handler nows s
       = (s\<lparr> timestamped_words_buffer := drop n (map word_entry ws @ [sentinel]) \<rparr>,
          map PushFrame (take n ?frames))"
    using timeline_rounds_prefix [OF assms(1,2,3,4), of nows] by blast
  have out: "?out = take n ?frames" by (simp only: n snd_conv pushed_frames_map)
  have le: "count_list ?out LLMFullResponseEndFrame \<le> 1"
    using count_take_le [of n ?frames LLMFullResponseEndFrame] count_marker_timeline [of ws]
    by (simp only: out)
  have late: "?out = ?frames \<and> count_list ?out LLMFullResponseEndFrame = 1"
    if h: "\<exists>now\<in>set nows. t0 \<le> now \<and> (\<forall>p\<in>set ws. snd p \<le> now - t0)"
  proof -
    obtain now where now: "now \<in> set nows" "t0 \<le> now" "\<forall>p\<in>set ws. snd p \<le> now - t0"
      using h by blast
    have "context_appending_task_handler nows s
           = (s\<lparr> timestamped_words_buffer := [] \<rparr>, map PushFrame ?frames)"
      using timeline_rounds_complete [OF assms(1,2,3,4) now] .
    then have "?out = ?frames" by (simp only: snd_conv pushed_frames_map)
    then show ?thesis using count_marker_timeline [of ws] by simp
  qed
  have idle: "context_id_start_timestamp s'' = None \<longrightarrow>
            context_appending_task_handler nows s'' = (s'', [])"
    using ticks_without_timestamp [of s'' nows] by blast
  have i: "pushed_frames (snd (handle_interruption s')) = [LLMFullResponseEndFrame]"
    "timestamped_words_buffer (fst (handle_interruption s')) = []"
    by (simp_all add: handle_interruption_def)
  have d: "websocket s' = None \<or> close_ok \<longrightarrow>
            timestamped_words_buffer (fst (disconnect close_ok s')) = []
            \<and> context_id_start_timestamp (fst (disconnect close_ok s')) = None"
    using disconnect_resets_when_close_returns [of s' close_ok] by (auto simp: init_def)
  show ?thesis using le late idle i d disconnect_pushes_nothing [of close_ok s'] by blast
qed

theorem markers_emitted_witness:
  "pushed_frames (snd (context_appending_task_handler [401 / 4, 201 / 2] example_buffered))
     = [TextFrame (JStr ''hello''), TextFrame (JStr ''world''), LLMFullResponseEndFrame]
   \<and> count_list
        (pushed_frames (snd (context_appending_task_handler [401 / 4, 201 / 2]
                               example_buffered)))
        LLMFullResponseEndFrame = 1"
proof -
  let ?ws = "[(''hello'', 1 / 4), (''world'', 1 / 2)] :: (string \<times> rat) list"
  let ?nows = "[401 / 4, 201 / 2] :: rat list"
  have h1: "context_id_start_timestamp example_buffered = Some 100"
    and h2: "(100::rat) \<noteq> 0"
    and h3: "timestamped_words_buffer example_buffered = map word_entry ?ws @ [sentinel]"
    and h4: "\<forall>p\<in>set ?ws. \<not> sentinel_like p"
    by (simp_all add: example_buffered_eq sentinel_like_def)
  have "(201 / 2 :: rat) \<in> set ?nows"
    and "(100::rat) \<le> 201 / 2 \<and> (\<forall>p\<in>set ?ws. snd p \<le> 201 / 2 - 100)"
    by simp_all
  then have h5: "\<exists>now\<in>set ?nows. 100 \<le> now \<and> (\<forall>p\<in>set ?ws. snd p \<le> now - 100)"
    by (rule bexI [rotated])
  show ?thesis
    using markers_emitted [OF h1 h2 h3 h4, of ?nows, THEN conjunct2, THEN conjunct1,
        rule_format, OF h5]
    by simp
qed

end
